theory Spec2Isabelle
  imports Main "HOL-Library.AList"
begin

section \<open>The position-broadcast server of \<^verbatim>\<open>server.js\<close>\<close>

text \<open>
  The server keeps two pieces of global state, the registry \<^verbatim>\<open>players\<close> and the counter
  \<^verbatim>\<open>nextPlayerId\<close>, and registers one handler per transport event (\<^verbatim>\<open>connection\<close>,
  \<^verbatim>\<open>message\<close>, \<^verbatim>\<open>close\<close>, \<^verbatim>\<open>error\<close>). Node runs handlers one at a time, so each handler is
  a function from the state before to the state after, together with the effects it
  performed in program order. An exception that leaves a handler is the value \<open>Inl\<close>.

  Numbers. A JavaScript number is an IEEE double; on integers of magnitude below \<open>2^53\<close>
  its \<^verbatim>\<open>+\<close>, \<^verbatim>\<open>-\<close>, \<^verbatim>\<open>Math.min\<close>, \<^verbatim>\<open>Math.max\<close> and \<^verbatim>\<open>!==\<close> are those of the integers.
  Coordinates stay between 0 and 480 and are modelled as \<open>int\<close>; the two divisions
  \<^verbatim>\<open>WORLD_SIZE / 2\<close> and \<^verbatim>\<open>PLAYER_SIZE / 2\<close> are exact. The id counter is a \<open>nat\<close> whose
  increment stops at \<open>2^53\<close>, as the double's does (\<open>js_increment\<close> below).
\<close>

subsection \<open>Game configuration\<close>

definition WORLD_SIZE :: int where
  "WORLD_SIZE = 500"

definition PLAYER_SIZE :: int where
  "PLAYER_SIZE = 20"

definition MOVEMENT_SPEED :: int where
  "MOVEMENT_SPEED = 5"

subsection \<open>Data\<close>

text \<open>A player object \<^verbatim>\<open>{ x, y, color, name, id }\<close>.\<close>

record player =
  player_x :: int
  player_y :: int
  player_color :: string
  player_name :: string
  player_id :: string

text \<open>
  The registry \<^verbatim>\<open>players\<close> is a plain object with string keys, none of them an array
  index: an association list in insertion order. \<^verbatim>\<open>players[k] = v\<close> is \<open>AList.update\<close>
  (overwrite in place, or append), \<^verbatim>\<open>delete players[k]\<close> is \<open>AList.delete\<close>, and
  \<^verbatim>\<open>players[k]\<close> is \<open>map_of\<close>, \<open>None\<close> standing for \<^verbatim>\<open>undefined\<close>. Every key the server
  uses is an id \<^verbatim>\<open>player-n\<close>, which is not the name of a property of \<^verbatim>\<open>Object.prototype\<close>:
  a lookup finds an own property or nothing.
\<close>

type_synonym registry = "(string \<times> player) list"

text \<open>
  What \<^verbatim>\<open>JSON.parse\<close> can return. Numbers in a payload are never inspected by the
  server. An object is the list of its own properties, each key once.
\<close>

datatype json =
    JNull
  | JBool bool
  | JNumber int
  | JString string
  | JArray "json list"
  | JObject "(string \<times> json) list"

text \<open>The messages the server serialises with \<^verbatim>\<open>JSON.stringify\<close>, by their \<^verbatim>\<open>type\<close> tag.\<close>

datatype server_msg =
    Init string player int int
  | CurrentPlayers registry
  | PlayerJoined player
  | PlayerMoved string int int
  | Chat string "json option"
  | PlayerLeft string

datatype ready_state = CONNECTING | OPEN | CLOSING | CLOSED

text \<open>
  A member of \<^verbatim>\<open>wss.clients\<close>: the identity of the connection object and its
  \<^verbatim>\<open>readyState\<close>. The set is iterated in insertion order.
\<close>

record websocket =
  handle :: nat
  readyState :: ready_state

record state =
  players :: registry
  nextPlayerId :: nat
  wss_clients :: "websocket list"

text \<open>
  What a handler does, in program order: a write to the registry, a deletion from it, a
  call \<^verbatim>\<open>c.send(JSON.stringify(m))\<close> on the connection with handle \<open>c\<close>.
\<close>

datatype effect =
    SetPlayer string player
  | DeletePlayer string
  | Send nat server_msg

datatype js_error = SyntaxError | TypeError | ReferenceError

definition initial_state :: state where
  "initial_state = \<lparr>players = [], nextPlayerId = 1, wss_clients = []\<rparr>"

subsection \<open>Numbers and strings of the runtime\<close>

text \<open>
  \<^verbatim>\<open>n++\<close> on a number that holds a non-negative integer \<open>n\<close>. Below \<open>2^53\<close> the sum
  \<open>n + 1\<close> is a double. At \<open>2^53\<close> it is not: \<open>2^53 + 1\<close> lies halfway between the doubles
  \<open>2^53\<close> and \<open>2^53 + 2\<close> and rounds to the even one, \<open>2^53\<close>, so the variable keeps its
  value. A counter that starts at 1 never holds more than \<open>2^53\<close> (lemma
  \<open>counter_bounded\<close>).
\<close>

definition js_increment :: "nat \<Rightarrow> nat" where
  "js_increment n = (if n < 2 ^ 53 then n + 1 else n)"

text \<open>Number to string, for a non-negative integer below \<open>10^21\<close>: its decimal digits.\<close>

definition digit_char :: "nat \<Rightarrow> char" where
  "digit_char d = ''0123456789'' ! d"

fun number_toString :: "nat \<Rightarrow> string" where
  "number_toString n =
     (if n < 10 then [digit_char n]
      else number_toString (n div 10) @ [digit_char (n mod 10)])"

declare number_toString.simps [simp del]

text \<open>\<^verbatim>\<open>s.split(sep)\<close> for a separator of one character.\<close>

fun js_split :: "char \<Rightarrow> string \<Rightarrow> string list" where
  "js_split sep [] = [[]]"
| "js_split sep (c # cs) =
     (if c = sep then [] # js_split sep cs
      else (case js_split sep cs of
              [] \<Rightarrow> [[c]]
            | w # ws \<Rightarrow> (c # w) # ws))"

text \<open>
  \<^verbatim>\<open>`${v}`\<close> raises a TypeError on some parsed values. An object with an own property
  \<^verbatim>\<open>toString\<close> (never callable after \<^verbatim>\<open>JSON.parse\<close>) has no primitive value:
  \<^verbatim>\<open>Object.prototype.valueOf\<close> returns the object itself, and an own \<^verbatim>\<open>valueOf\<close> is not
  callable either. An array is joined, which converts every element other than \<^verbatim>\<open>null\<close>.
\<close>

fun toString_throws :: "json \<Rightarrow> bool" where
  "toString_throws (JObject kvs) = (''toString'' \<in> set (map fst kvs))"
| "toString_throws (JArray vs) = list_ex toString_throws vs"
| "toString_throws JNull = False"
| "toString_throws (JBool b) = False"
| "toString_throws (JNumber n) = False"
| "toString_throws (JString s) = False"

text \<open>
  Reading one of the properties \<^verbatim>\<open>type\<close>, \<^verbatim>\<open>direction\<close>, \<^verbatim>\<open>message\<close> of a parsed value. No
  prototype has a property of these names, so only an object's own properties count and
  every other value gives \<^verbatim>\<open>undefined\<close>; reading a property of \<^verbatim>\<open>null\<close> raises.
\<close>

fun get_prop :: "json \<Rightarrow> string \<Rightarrow> js_error + json option" where
  "get_prop JNull k = Inl TypeError"
| "get_prop (JObject kvs) k = Inr (map_of kvs k)"
| "get_prop (JBool b) k = Inr None"
| "get_prop (JNumber n) k = Inr None"
| "get_prop (JString s) k = Inr None"
| "get_prop (JArray vs) k = Inr None"

subsection \<open>\<^verbatim>\<open>getRandomColor\<close>\<close>

text \<open>
  \<open>rnd i\<close> is the value of \<^verbatim>\<open>Math.floor(Math.random() * 16)\<close> in round \<open>i\<close> of the loop, a
  number from 0 to 15. Indexing a string out of range gives \<^verbatim>\<open>undefined\<close>.
\<close>

definition letters :: string where
  "letters = ''0123456789ABCDEF''"

definition letter_at :: "nat \<Rightarrow> string" where
  "letter_at d = (if d < length letters then [letters ! d] else ''undefined'')"

definition getRandomColor :: "(nat \<Rightarrow> nat) \<Rightarrow> string" where
  "getRandomColor rnd = foldl (\<lambda>color i. color @ letter_at (rnd i)) ''#'' [0..<6]"

subsection \<open>Broadcast\<close>

text \<open>
  \<^verbatim>\<open>wss.clients.forEach(client => { if (client.readyState === WebSocket.OPEN)
  client.send(...) })\<close>
\<close>

definition broadcast :: "state \<Rightarrow> server_msg \<Rightarrow> effect list" where
  "broadcast s m =
     map (\<lambda>client. Send (handle client) m)
       (filter (\<lambda>client. readyState client = OPEN) (wss_clients s))"

subsection \<open>The \<^verbatim>\<open>connection\<close> handler\<close>

definition initialX :: int where
  "initialX = WORLD_SIZE div 2 - PLAYER_SIZE div 2"

definition initialY :: int where
  "initialY = WORLD_SIZE div 2 - PLAYER_SIZE div 2"

definition playerId_of :: "nat \<Rightarrow> string" where
  "playerId_of n = ''player-'' @ number_toString n"

definition playerName_of :: "string \<Rightarrow> string" where
  "playerName_of playerId =
     ''Player '' @ (case js_split CHR ''-'' playerId of
                      a # b # rest \<Rightarrow> b
                    | _ \<Rightarrow> ''undefined'')"

definition new_player :: "string \<Rightarrow> string \<Rightarrow> player" where
  "new_player playerId playerColor =
     \<lparr>player_x = initialX, player_y = initialY, player_color = playerColor,
      player_name = playerName_of playerId, player_id = playerId\<rparr>"

text \<open>
  \<open>ws\<close> is the handle of the new connection. The result is the state after, the id that
  \<^verbatim>\<open>ws.id = playerId\<close> attaches to the connection, and the effects. The handlers that the
  connection handler registers for this connection read the id back as \<^verbatim>\<open>ws.id\<close>; below
  they take it as the argument \<open>ws_id\<close>.
\<close>

definition on_connection :: "state \<Rightarrow> nat \<Rightarrow> (nat \<Rightarrow> nat) \<Rightarrow> state \<times> string \<times> effect list" where
  "on_connection s ws rnd =
     (let playerId = playerId_of (nextPlayerId s);
          s1 = s\<lparr>nextPlayerId := js_increment (nextPlayerId s)\<rparr>;
          playerColor = getRandomColor rnd;
          p = new_player playerId playerColor;
          s2 = s1\<lparr>players := AList.update playerId p (players s1)\<rparr>
      in (s2, playerId,
          [SetPlayer playerId p,
           Send ws (Init playerId p WORLD_SIZE PLAYER_SIZE),
           Send ws (CurrentPlayers (players s2))]
          @ map (\<lambda>client. Send (handle client) (PlayerJoined p))
              (filter (\<lambda>client. handle client \<noteq> ws \<and> readyState client = OPEN)
                 (wss_clients s2))))"

subsection \<open>The \<^verbatim>\<open>message\<close> handler\<close>

text \<open>The inner \<^verbatim>\<open>switch (parsedMessage.direction)\<close>, on \<open>(newX, newY)\<close>.\<close>

definition direction_switch :: "json option \<Rightarrow> int \<times> int \<Rightarrow> int \<times> int" where
  "direction_switch direction pos =
     (case pos of (px, py) \<Rightarrow>
        if direction = Some (JString ''w'') then (px, max 0 (py - MOVEMENT_SPEED))
        else if direction = Some (JString ''a'') then (max 0 (px - MOVEMENT_SPEED), py)
        else if direction = Some (JString ''s'') then
          (px, min (WORLD_SIZE - PLAYER_SIZE) (py + MOVEMENT_SPEED))
        else if direction = Some (JString ''d'') then
          (min (WORLD_SIZE - PLAYER_SIZE) (px + MOVEMENT_SPEED), py)
        else (px, py))"

text \<open>
  \<^verbatim>\<open>case 'movement'\<close>. \<^verbatim>\<open>player.x = newX; player.y = newY\<close> mutates the object that the
  registry holds under \<^verbatim>\<open>ws.id\<close>.
\<close>

definition movement_case :: "state \<Rightarrow> string \<Rightarrow> json \<Rightarrow> js_error + state \<times> effect list" where
  "movement_case s ws_id parsedMessage =
     (case map_of (players s) ws_id of
        None \<Rightarrow> Inr (s, [])
      | Some p \<Rightarrow>
          (case get_prop parsedMessage ''direction'' of
             Inl e \<Rightarrow> Inl e
           | Inr direction \<Rightarrow>
               (case direction_switch direction (player_x p, player_y p) of
                  (newX, newY) \<Rightarrow>
                    if newX \<noteq> player_x p \<or> newY \<noteq> player_y p then
                      (let p' = p\<lparr>player_x := newX, player_y := newY\<rparr>;
                           s' = s\<lparr>players := AList.update ws_id p' (players s)\<rparr>
                       in Inr (s', SetPlayer ws_id p'
                                   # broadcast s' (PlayerMoved ws_id (player_x p') (player_y p'))))
                    else Inr (s, []))))"

text \<open>
  The binding \<^verbatim>\<open>const player\<close> is declared inside \<^verbatim>\<open>case 'movement'\<close>, and its scope is
  the whole block of the \<^verbatim>\<open>switch\<close>. Until the declaration has been executed the binding
  is uninitialised, and a reference to it raises a ReferenceError.
\<close>

datatype 'a binding = Uninitialized | Initialized 'a

definition read_binding :: "'a binding \<Rightarrow> js_error + 'a" where
  "read_binding b = (case b of Uninitialized \<Rightarrow> Inl ReferenceError | Initialized v \<Rightarrow> Inr v)"

text \<open>
  \<^verbatim>\<open>case 'chat'\<close>, given the binding \<^verbatim>\<open>player\<close>. The argument of \<^verbatim>\<open>console.log\<close> is
  evaluated first: \<^verbatim>\<open>player.name\<close>, then \<^verbatim>\<open>parsedMessage.message\<close> converted to a string.
\<close>

definition chat_case ::
  "state \<Rightarrow> player option binding \<Rightarrow> json \<Rightarrow> js_error + state \<times> effect list" where
  "chat_case s player parsedMessage =
     (case read_binding player of
        Inl e \<Rightarrow> Inl e
      | Inr None \<Rightarrow> Inl TypeError
      | Inr (Some p) \<Rightarrow>
          (case get_prop parsedMessage ''message'' of
             Inl e \<Rightarrow> Inl e
           | Inr message \<Rightarrow>
               if (case message of None \<Rightarrow> False | Some v \<Rightarrow> toString_throws v)
               then Inl TypeError
               else Inr (s, broadcast s (Chat (player_name p) message))))"

text \<open>
  The handler. \<open>parsed\<close> is the outcome of \<^verbatim>\<open>JSON.parse(message)\<close>: \<open>None\<close> when it raised
  (the \<^verbatim>\<open>catch\<close> logs and returns), the value otherwise. The outer \<^verbatim>\<open>switch\<close> compares
  \<^verbatim>\<open>parsedMessage.type\<close> with \<^verbatim>\<open>===\<close>. A jump to \<^verbatim>\<open>case 'chat'\<close> skips the declaration of
  \<^verbatim>\<open>player\<close>. The \<^verbatim>\<open>default\<close> case converts \<^verbatim>\<open>parsedMessage.type\<close> to a string for
  \<^verbatim>\<open>console.warn\<close>.
\<close>

definition on_message :: "state \<Rightarrow> string \<Rightarrow> json option \<Rightarrow> js_error + state \<times> effect list" where
  "on_message s ws_id parsed =
     (case parsed of
        None \<Rightarrow> Inr (s, [])
      | Some parsedMessage \<Rightarrow>
          (case get_prop parsedMessage ''type'' of
             Inl e \<Rightarrow> Inl e
           | Inr type \<Rightarrow>
               if type = Some (JString ''movement'') then movement_case s ws_id parsedMessage
               else if type = Some (JString ''chat'') then chat_case s Uninitialized parsedMessage
               else if (case type of None \<Rightarrow> False | Some v \<Rightarrow> toString_throws v)
               then Inl TypeError
               else Inr (s, [])))"

subsection \<open>The \<^verbatim>\<open>close\<close> and \<^verbatim>\<open>error\<close> handlers\<close>

definition on_close :: "state \<Rightarrow> string \<Rightarrow> state \<times> effect list" where
  "on_close s ws_id =
     (let s' = s\<lparr>players := AList.delete ws_id (players s)\<rparr>
      in (s', DeletePlayer ws_id # broadcast s' (PlayerLeft ws_id)))"

definition on_error :: "state \<Rightarrow> string \<Rightarrow> state \<times> effect list" where
  "on_error s ws_id = (s, [])"

subsection \<open>Runs of the server\<close>

text \<open>
  The events of a run. \<open>Transport cs\<close> is whatever the WebSocket library does to
  \<^verbatim>\<open>wss.clients\<close> between two handlers (a connection added on upgrade, removed on close, a
  \<^verbatim>\<open>readyState\<close> changing); no restriction is put on it. A message, close or error event
  of a connection carries the number \<open>n\<close> of its id: \<^verbatim>\<open>ws.id\<close> is \<^verbatim>\<open>player-n\<close>, the only
  kind of id the connection handler attaches. The source catches no exception that
  leaves a handler, and an uncaught exception ends the process: the run stops there. Every
  exception of the handlers is raised before the handler has changed the state.
\<close>

datatype event =
    Connection nat "nat \<Rightarrow> nat"
  | Message nat "json option"
  | Close nat
  | Error nat
  | Transport "websocket list"

fun step :: "state \<Rightarrow> event \<Rightarrow> js_error + state \<times> effect list" where
  "step s (Connection ws rnd) =
     (case on_connection s ws rnd of (s', playerId, effects) \<Rightarrow> Inr (s', effects))"
| "step s (Message n parsed) = on_message s (playerId_of n) parsed"
| "step s (Close n) = Inr (on_close s (playerId_of n))"
| "step s (Error n) = Inr (on_error s (playerId_of n))"
| "step s (Transport cs) = Inr (s\<lparr>wss_clients := cs\<rparr>, [])"

fun run :: "state \<Rightarrow> event list \<Rightarrow> js_error + state \<times> effect list" where
  "run s [] = Inr (s, [])"
| "run s (e # es) =
     (case step s e of
        Inl err \<Rightarrow> Inl err
      | Inr (s', effects) \<Rightarrow>
          (case run s' es of
             Inl err \<Rightarrow> Inl err
           | Inr (s'', effects') \<Rightarrow> Inr (s'', effects @ effects')))"

text \<open>The connects of a run.\<close>

fun is_Connection :: "event \<Rightarrow> bool" where
  "is_Connection (Connection ws rnd) = True"
| "is_Connection e = False"

subsection \<open>Observations on an effect log\<close>

text \<open>
  The ids announced by \<^verbatim>\<open>init\<close> messages: every connection handler sends exactly one,
  carrying the id it allocated.
\<close>

fun assigned_ids :: "effect list \<Rightarrow> string list" where
  "assigned_ids [] = []"
| "assigned_ids (Send ws (Init playerId p w h) # effects) = playerId # assigned_ids effects"
| "assigned_ids (e # effects) = assigned_ids effects"

text \<open>The registry snapshots carried by \<^verbatim>\<open>currentPlayers\<close> messages.\<close>

fun snapshots :: "effect list \<Rightarrow> registry list" where
  "snapshots [] = []"
| "snapshots (Send ws (CurrentPlayers snapshot) # effects) = snapshot # snapshots effects"
| "snapshots (e # effects) = snapshots effects"

text \<open>The messages sent on the connection with handle \<open>h\<close>, in order.\<close>

fun sent_to :: "nat \<Rightarrow> effect list \<Rightarrow> server_msg list" where
  "sent_to h [] = []"
| "sent_to h (Send c m # effects) = (if c = h then m # sent_to h effects else sent_to h effects)"
| "sent_to h (e # effects) = sent_to h effects"

text \<open>What a run from the initial state assigns, leaves in the registry, and sends as snapshots.\<close>

definition ids_of_run :: "event list \<Rightarrow> string list" where
  "ids_of_run es =
     (case run initial_state es of Inl err \<Rightarrow> [] | Inr (s, effects) \<Rightarrow> assigned_ids effects)"

definition registry_after :: "event list \<Rightarrow> registry" where
  "registry_after es =
     (case run initial_state es of Inl err \<Rightarrow> [] | Inr (s, effects) \<Rightarrow> players s)"

definition snapshots_of_run :: "event list \<Rightarrow> registry list" where
  "snapshots_of_run es =
     (case run initial_state es of Inl err \<Rightarrow> [] | Inr (s, effects) \<Rightarrow> snapshots effects)"

text \<open>Reading a decimal string back, to show that ids of different numbers differ.\<close>

definition digit_value :: "char \<Rightarrow> nat" where
  "digit_value c = of_char c - 48"

definition string_value :: "string \<Rightarrow> nat" where
  "string_value cs = foldl (\<lambda>a c. 10 * a + digit_value c) 0 cs"

subsection \<open>The scenarios of the specification\<close>

text \<open>
  Clients A, B and C on connections 0, 1 and 2; the random draws give A the colour
  \<^verbatim>\<open>#AAAAAA\<close>, B \<^verbatim>\<open>#BBBBBB\<close> and C \<^verbatim>\<open>#CCCCCC\<close>.
\<close>

definition ws_A :: websocket where
  "ws_A = \<lparr>handle = 0, readyState = OPEN\<rparr>"

definition ws_B :: websocket where
  "ws_B = \<lparr>handle = 1, readyState = OPEN\<rparr>"

definition ws_C :: websocket where
  "ws_C = \<lparr>handle = 2, readyState = OPEN\<rparr>"

definition player_A :: player where
  "player_A = \<lparr>player_x = 240, player_y = 240, player_color = ''#AAAAAA'',
     player_name = ''Player 1'', player_id = ''player-1''\<rparr>"

definition player_B :: player where
  "player_B = \<lparr>player_x = 240, player_y = 240, player_color = ''#BBBBBB'',
     player_name = ''Player 2'', player_id = ''player-2''\<rparr>"

definition player_C :: player where
  "player_C = \<lparr>player_x = 240, player_y = 240, player_color = ''#CCCCCC'',
     player_name = ''Player 3'', player_id = ''player-3''\<rparr>"

definition movement_msg :: "string \<Rightarrow> json" where
  "movement_msg direction =
     JObject [(''type'', JString ''movement''), (''direction'', JString direction)]"

definition chat_msg :: "string \<Rightarrow> json" where
  "chat_msg text = JObject [(''type'', JString ''chat''), (''message'', JString text)]"

text \<open>A is connected, and the transport has accepted B.\<close>

definition state_A :: state where
  "state_A = \<lparr>players = [(''player-1'', player_A)], nextPlayerId = 2,
     wss_clients = [ws_A, ws_B]\<rparr>"

text \<open>A and B are connected.\<close>

definition connect_AB :: "event list" where
  "connect_AB = [Transport [ws_A], Connection 0 (\<lambda>i. 10),
                 Transport [ws_A, ws_B], Connection 1 (\<lambda>i. 11)]"

definition state_AB :: state where
  "state_AB = \<lparr>players = [(''player-1'', player_A), (''player-2'', player_B)],
     nextPlayerId = 3, wss_clients = [ws_A, ws_B]\<rparr>"

definition effects_AB :: "effect list" where
  "effects_AB =
     [SetPlayer ''player-1'' player_A,
      Send 0 (Init ''player-1'' player_A 500 20),
      Send 0 (CurrentPlayers [(''player-1'', player_A)]),
      SetPlayer ''player-2'' player_B,
      Send 1 (Init ''player-2'' player_B 500 20),
      Send 1 (CurrentPlayers [(''player-1'', player_A), (''player-2'', player_B)]),
      Send 0 (PlayerJoined player_B)]"

text \<open>Then A has moved right once.\<close>

definition state_moved :: state where
  "state_moved = \<lparr>players = [(''player-1'', player_A\<lparr>player_x := 245\<rparr>), (''player-2'', player_B)],
     nextPlayerId = 3, wss_clients = [ws_A, ws_B]\<rparr>"

definition effects_moved :: "effect list" where
  "effects_moved =
     [SetPlayer ''player-1'' (player_A\<lparr>player_x := 245\<rparr>),
      Send 0 (PlayerMoved ''player-1'' 245 240),
      Send 1 (PlayerMoved ''player-1'' 245 240)]"

text \<open>A and B are connected, and the transport has closed and dropped A's connection.\<close>

definition state_AB_closing :: state where
  "state_AB_closing = \<lparr>players = [(''player-1'', player_A), (''player-2'', player_B)],
     nextPlayerId = 3, wss_clients = [ws_B]\<rparr>"

text \<open>A has disconnected.\<close>

definition state_B :: state where
  "state_B = \<lparr>players = [(''player-2'', player_B)], nextPlayerId = 3, wss_clients = [ws_B]\<rparr>"

text \<open>Then C has connected.\<close>

definition state_BC :: state where
  "state_BC = \<lparr>players = [(''player-2'', player_B), (''player-3'', player_C)],
     nextPlayerId = 4, wss_clients = [ws_B, ws_C]\<rparr>"

definition effects_C :: "effect list" where
  "effects_C =
     [SetPlayer ''player-3'' player_C,
      Send 2 (Init ''player-3'' player_C 500 20),
      Send 2 (CurrentPlayers [(''player-2'', player_B), (''player-3'', player_C)]),
      Send 1 (PlayerJoined player_C)]"

text \<open>
  A long life of the process: \<open>k\<close> clients connect one after the other, on the
  connections \<open>0, ..., k - 1\<close>, each drawing the colour \<^verbatim>\<open>#AAAAAA\<close>. After \<open>2^53\<close> connects
  the client of the last one disconnects and one more client connects.
\<close>

definition rnd_A :: "nat \<Rightarrow> nat" where
  "rnd_A i = 10"

definition connects :: "nat \<Rightarrow> event list" where
  "connects k = map (\<lambda>i. Connection i rnd_A) [0..<k]"

definition player_last :: player where
  "player_last = \<lparr>player_x = 240, player_y = 240, player_color = ''#AAAAAA'',
     player_name = ''Player 9007199254740992'', player_id = ''player-9007199254740992''\<rparr>"

text \<open>A alone, after 48 moves to the left: at the western edge of the world.\<close>

definition walk_west :: "event list" where
  "walk_west = [Transport [ws_A], Connection 0 (\<lambda>i. 10)]
     @ replicate 48 (Message 1 (Some (movement_msg ''a'')))"

definition state_edge :: state where
  "state_edge = \<lparr>players = [(''player-1'', player_A\<lparr>player_x := 0\<rparr>)],
     nextPlayerId = 2, wss_clients = [ws_A]\<rparr>"

section \<open>Auxiliary facts\<close>

subsection \<open>The counter\<close>

text \<open>For evaluation the bound is compared over \<open>int\<close>, whose numerals are binary.\<close>

lemma js_increment_code [code]:
  "js_increment n = (if int n < 9007199254740992 then n + 1 else n)"
  by (simp add: js_increment_def)

lemma js_increment_ge: "n \<le> js_increment n"
  by (simp add: js_increment_def)

lemma js_increment_below: "n < 2 ^ 53 \<Longrightarrow> js_increment n = Suc n"
  by (simp add: js_increment_def)

lemma js_increment_min: "js_increment (min (Suc k) (2 ^ 53)) = min (Suc (Suc k)) (2 ^ 53)"
  by (simp add: js_increment_def min_def)

subsection \<open>Ids of different numbers differ\<close>

lemma digit_value_digit_char: "d < 10 \<Longrightarrow> digit_value (digit_char d) = d"
proof -
  assume "d < 10"
  then consider "d = 0" | "d = 1" | "d = 2" | "d = 3" | "d = 4"
    | "d = 5" | "d = 6" | "d = 7" | "d = 8" | "d = 9"
    by atomize_elim arith
  then show ?thesis
    by cases (simp_all add: digit_char_def digit_value_def)
qed

lemma string_value_number_toString: "string_value (number_toString n) = n"
proof (induction n rule: number_toString.induct)
  case (1 n)
  show ?case
  proof (cases "n < 10")
    case True
    then show ?thesis
      by (subst number_toString.simps) (simp add: string_value_def digit_value_digit_char)
  next
    case False
    with 1 have ih: "string_value (number_toString (n div 10)) = n div 10"
      by simp
    have "string_value (number_toString n)
        = 10 * string_value (number_toString (n div 10)) + digit_value (digit_char (n mod 10))"
      using False by (subst number_toString.simps) (simp add: string_value_def)
    with ih show ?thesis
      by (simp add: digit_value_digit_char)
  qed
qed

lemma playerId_of_inject: "playerId_of m = playerId_of n \<Longrightarrow> m = n"
proof -
  assume "playerId_of m = playerId_of n"
  then have "number_toString m = number_toString n"
    by (simp add: playerId_of_def)
  then have "string_value (number_toString m) = string_value (number_toString n)"
    by simp
  then show ?thesis
    by (simp add: string_value_number_toString)
qed

subsection \<open>The inner switch\<close>

lemma direction_switch_bounds:
  assumes "0 \<le> px" "px \<le> WORLD_SIZE - PLAYER_SIZE" "0 \<le> py" "py \<le> WORLD_SIZE - PLAYER_SIZE"
    and "direction_switch d (px, py) = (nx, ny)"
  shows "0 \<le> nx \<and> nx \<le> WORLD_SIZE - PLAYER_SIZE \<and> 0 \<le> ny \<and> ny \<le> WORLD_SIZE - PLAYER_SIZE"
  using assms
  by (auto simp: direction_switch_def WORLD_SIZE_def PLAYER_SIZE_def MOVEMENT_SPEED_def
      split: if_splits)

lemma direction_switch_grid:
  assumes "MOVEMENT_SPEED dvd px" "MOVEMENT_SPEED dvd py"
    and "direction_switch d (px, py) = (nx, ny)"
  shows "MOVEMENT_SPEED dvd nx \<and> MOVEMENT_SPEED dvd ny"
  using assms
  by (auto simp: direction_switch_def WORLD_SIZE_def PLAYER_SIZE_def MOVEMENT_SPEED_def
      max_def min_def split: if_splits)

lemma direction_switch_steps:
  "fst (direction_switch d (px, py)) \<in> {px, px - 5, px + 5, 0, 480}
   \<and> snd (direction_switch d (px, py)) \<in> {py, py - 5, py + 5, 0, 480}"
  by (simp add: direction_switch_def WORLD_SIZE_def PLAYER_SIZE_def MOVEMENT_SPEED_def
      max_def min_def)

subsection \<open>What a message can do to the state\<close>

lemma movement_case_cases:
  assumes "movement_case s ws_id pm = Inr (s', effs)"
  shows "(s' = s \<and> effs = []) \<or>
    (\<exists>p d nx ny. map_of (players s) ws_id = Some p
       \<and> direction_switch d (player_x p, player_y p) = (nx, ny)
       \<and> s' = s\<lparr>players := AList.update ws_id (p\<lparr>player_x := nx, player_y := ny\<rparr>) (players s)\<rparr>
       \<and> effs = SetPlayer ws_id (p\<lparr>player_x := nx, player_y := ny\<rparr>)
                # broadcast s' (PlayerMoved ws_id nx ny))"
  using assms
  by (auto simp: movement_case_def Let_def split: option.splits sum.splits prod.splits if_splits)

lemma chat_case_Uninitialized: "chat_case s Uninitialized pm = Inl ReferenceError"
  by (simp add: chat_case_def read_binding_def)

lemma on_message_cases:
  assumes "on_message s ws_id parsed = Inr (s', effs)"
  shows "(s' = s \<and> effs = []) \<or>
    (\<exists>p d nx ny. map_of (players s) ws_id = Some p
       \<and> direction_switch d (player_x p, player_y p) = (nx, ny)
       \<and> s' = s\<lparr>players := AList.update ws_id (p\<lparr>player_x := nx, player_y := ny\<rparr>) (players s)\<rparr>
       \<and> effs = SetPlayer ws_id (p\<lparr>player_x := nx, player_y := ny\<rparr>)
                # broadcast s' (PlayerMoved ws_id nx ny))"
proof (cases parsed)
  case None
  with assms show ?thesis by (simp add: on_message_def)
next
  case (Some pm)
  show ?thesis
  proof (cases "get_prop pm ''type''")
    case (Inl e)
    with assms Some show ?thesis by (simp add: on_message_def)
  next
    case (Inr t)
    show ?thesis
    proof (cases "t = Some (JString ''movement'')")
      case True
      with assms Some Inr have "movement_case s ws_id pm = Inr (s', effs)"
        by (simp add: on_message_def)
      then show ?thesis by (rule movement_case_cases)
    next
      case False
      with assms Some Inr show ?thesis
        by (simp add: on_message_def chat_case_Uninitialized split: if_splits)
    qed
  qed
qed

subsection \<open>Properties of players kept by every step\<close>

lemma step_players_cases:
  assumes "step s e = Inr (s', effs)"
  shows "players s' = players s
    \<or> (\<exists>c. players s' = AList.update (playerId_of (nextPlayerId s))
                (new_player (playerId_of (nextPlayerId s)) c) (players s))
    \<or> (\<exists>ws_id p d nx ny. map_of (players s) ws_id = Some p
          \<and> direction_switch d (player_x p, player_y p) = (nx, ny)
          \<and> players s' = AList.update ws_id (p\<lparr>player_x := nx, player_y := ny\<rparr>) (players s))
    \<or> (\<exists>ws_id. players s' = AList.delete ws_id (players s))"
proof (cases e)
  case (Connection ws rnd)
  with assms show ?thesis
    by (auto simp: on_connection_def Let_def)
next
  case (Message n parsed)
  with assms have "on_message s (playerId_of n) parsed = Inr (s', effs)" by simp
  from on_message_cases [OF this] show ?thesis
  proof (elim disjE exE conjE)
    assume "s' = s"
    then show ?thesis by simp
  next
    fix p d nx ny
    assume "map_of (players s) (playerId_of n) = Some p"
      and "direction_switch d (player_x p, player_y p) = (nx, ny)"
      and "s' = s\<lparr>players := AList.update (playerId_of n) (p\<lparr>player_x := nx, player_y := ny\<rparr>) (players s)\<rparr>"
    then have "\<exists>ws_id p d nx ny. map_of (players s) ws_id = Some p
          \<and> direction_switch d (player_x p, player_y p) = (nx, ny)
          \<and> players s' = AList.update ws_id (p\<lparr>player_x := nx, player_y := ny\<rparr>) (players s)"
      by (intro exI [of _ "playerId_of n"] exI [of _ p] exI [of _ d] exI [of _ nx] exI [of _ ny]) simp
    then show ?thesis by blast
  qed
next
  case (Close n)
  with assms show ?thesis
    by (auto simp: on_close_def Let_def)
next
  case (Error n)
  with assms show ?thesis
    by (auto simp: on_error_def)
next
  case (Transport cs)
  with assms show ?thesis
    by auto
qed

lemma step_preserves:
  assumes inv: "\<And>k p. map_of (players s) k = Some p \<Longrightarrow> P p"
    and new: "\<And>pid c. P (new_player pid c)"
    and move: "\<And>p d nx ny. P p \<Longrightarrow> direction_switch d (player_x p, player_y p) = (nx, ny)
                 \<Longrightarrow> P (p\<lparr>player_x := nx, player_y := ny\<rparr>)"
    and step: "step s e = Inr (s', effs)"
    and look: "map_of (players s') k = Some p"
  shows "P p"
  using step_players_cases [OF step]
proof (elim disjE exE conjE)
  assume "players s' = players s"
  with look inv show ?thesis by simp
next
  fix c
  assume "players s' = AList.update (playerId_of (nextPlayerId s))
            (new_player (playerId_of (nextPlayerId s)) c) (players s)"
  with look inv new show ?thesis
    by (auto simp: update_conv' split: if_splits)
next
  fix ws_id q d nx ny
  assume "map_of (players s) ws_id = Some q"
    and "direction_switch d (player_x q, player_y q) = (nx, ny)"
    and "players s' = AList.update ws_id (q\<lparr>player_x := nx, player_y := ny\<rparr>) (players s)"
  with look inv move show ?thesis
    by (auto simp: update_conv' split: if_splits)
next
  fix ws_id
  assume "players s' = AList.delete ws_id (players s)"
  with look inv show ?thesis
    by (auto simp: delete_conv' split: if_splits)
qed

lemma run_preserves:
  assumes new: "\<And>pid c. P (new_player pid c)"
    and move: "\<And>p d nx ny. P p \<Longrightarrow> direction_switch d (player_x p, player_y p) = (nx, ny)
                 \<Longrightarrow> P (p\<lparr>player_x := nx, player_y := ny\<rparr>)"
  shows "run s es = Inr (s', effs) \<Longrightarrow> (\<And>k p. map_of (players s) k = Some p \<Longrightarrow> P p)
           \<Longrightarrow> map_of (players s') k = Some p \<Longrightarrow> P p"
proof (induction es arbitrary: s effs)
  case Nil
  then show ?case by simp
next
  case (Cons e es)
  from Cons.prems(1) obtain s1 effs1 effs2
    where st: "step s e = Inr (s1, effs1)" and rn: "run s1 es = Inr (s', effs2)"
    by (auto split: sum.splits prod.splits)
  have "\<And>k p. map_of (players s1) k = Some p \<Longrightarrow> P p"
  proof -
    fix k1 p1
    assume look: "map_of (players s1) k1 = Some p1"
    show "P p1"
    proof (rule step_preserves [where P = P and s = s, OF _ _ _ st look])
      show "\<And>k p. map_of (players s) k = Some p \<Longrightarrow> P p" by (rule Cons.prems(2))
      show "\<And>pid c. P (new_player pid c)" by (rule new)
      show "\<And>p d nx ny. P p \<Longrightarrow> direction_switch d (player_x p, player_y p) = (nx, ny)
                 \<Longrightarrow> P (p\<lparr>player_x := nx, player_y := ny\<rparr>)" by (rule move)
    qed
  qed
  with Cons.IH [OF rn] Cons.prems(3) show ?case
    by blast
qed

subsection \<open>The counter and the ids\<close>

lemma assigned_ids_append: "assigned_ids (xs @ ys) = assigned_ids xs @ assigned_ids ys"
  by (induction xs rule: assigned_ids.induct) simp_all

lemma snapshots_append: "snapshots (xs @ ys) = snapshots xs @ snapshots ys"
  by (induction xs rule: snapshots.induct) simp_all

lemma assigned_ids_joined: "assigned_ids (map (\<lambda>client. Send (handle client) (PlayerJoined p)) cs) = []"
  by (induction cs) simp_all

lemma snapshots_joined: "snapshots (map (\<lambda>client. Send (handle client) (PlayerJoined p)) cs) = []"
  by (induction cs) simp_all

lemma assigned_ids_broadcast:
  "(\<And>playerId p w h. m \<noteq> Init playerId p w h) \<Longrightarrow> assigned_ids (broadcast s m) = []"
proof -
  assume neq: "\<And>playerId p w h. m \<noteq> Init playerId p w h"
  have "assigned_ids (map (\<lambda>client. Send (handle client) m) cs) = []" for cs
  proof (induction cs)
    case Nil
    show ?case by simp
  next
    case (Cons c cs)
    with neq show ?case by (cases m) auto
  qed
  then show ?thesis by (simp add: broadcast_def)
qed

lemma snapshots_broadcast:
  "(\<And>snapshot. m \<noteq> CurrentPlayers snapshot) \<Longrightarrow> snapshots (broadcast s m) = []"
proof -
  assume neq: "\<And>snapshot. m \<noteq> CurrentPlayers snapshot"
  have "snapshots (map (\<lambda>client. Send (handle client) m) cs) = []" for cs
  proof (induction cs)
    case Nil
    show ?case by simp
  next
    case (Cons c cs)
    with neq show ?case by (cases m) auto
  qed
  then show ?thesis by (simp add: broadcast_def)
qed

lemma step_counter:
  assumes "step s e = Inr (s', effs)"
  shows "nextPlayerId s' = (if is_Connection e then js_increment (nextPlayerId s) else nextPlayerId s)
       \<and> assigned_ids effs = (if is_Connection e then [playerId_of (nextPlayerId s)] else [])
       \<and> snapshots effs = (if is_Connection e then [players s'] else [])"
proof (cases e)
  case (Connection ws rnd)
  with assms show ?thesis
    by (auto simp: on_connection_def Let_def assigned_ids_joined snapshots_joined)
next
  case (Message n parsed)
  with assms have "on_message s (playerId_of n) parsed = Inr (s', effs)" by simp
  from on_message_cases [OF this] Message show ?thesis
    by (auto simp: assigned_ids_broadcast snapshots_broadcast)
next
  case (Close n)
  with assms show ?thesis
    by (auto simp: on_close_def Let_def assigned_ids_broadcast snapshots_broadcast)
next
  case (Error n)
  with assms show ?thesis
    by (auto simp: on_error_def)
next
  case (Transport cs)
  with assms show ?thesis
    by auto
qed

lemma run_counter:
  "run s es = Inr (s', effs) \<Longrightarrow> nextPlayerId s + length (filter is_Connection es) \<le> 2 ^ 53 \<Longrightarrow>
     nextPlayerId s' = nextPlayerId s + length (filter is_Connection es)
   \<and> assigned_ids effs = map playerId_of [nextPlayerId s..<nextPlayerId s']"
proof (induction es arbitrary: s effs)
  case Nil
  then show ?case by simp
next
  case (Cons e es)
  from Cons.prems(1) obtain s1 effs1 effs2
    where st: "step s e = Inr (s1, effs1)" and rn: "run s1 es = Inr (s', effs2)"
      and effs: "effs = effs1 @ effs2"
    by (auto split: sum.splits prod.splits)
  note c1 = step_counter [OF st]
  show ?case
  proof (cases "is_Connection e")
    case True
    with Cons.prems(2) have below: "nextPlayerId s < 2 ^ 53"
      and rest: "Suc (nextPlayerId s) + length (filter is_Connection es) \<le> 2 ^ 53"
      by simp_all
    from c1 True below have s1: "nextPlayerId s1 = Suc (nextPlayerId s)"
      and a1: "assigned_ids effs1 = [playerId_of (nextPlayerId s)]"
      by (simp_all add: js_increment_below)
    from rest s1 have "nextPlayerId s1 + length (filter is_Connection es) \<le> 2 ^ 53"
      by simp
    from Cons.IH [OF rn this] s1
    have n: "nextPlayerId s' = Suc (nextPlayerId s) + length (filter is_Connection es)"
      and a2: "assigned_ids effs2 = map playerId_of [Suc (nextPlayerId s)..<nextPlayerId s']"
      by simp_all
    from n have "nextPlayerId s < nextPlayerId s'"
      by simp
    then have u: "[nextPlayerId s..<nextPlayerId s'] = nextPlayerId s # [Suc (nextPlayerId s)..<nextPlayerId s']"
      by (rule upt_conv_Cons)
    have "assigned_ids effs = map playerId_of [nextPlayerId s..<nextPlayerId s']"
      unfolding effs assigned_ids_append a1 a2 u by simp
    moreover from n True have "nextPlayerId s' = nextPlayerId s + length (filter is_Connection (e # es))"
      by simp
    ultimately show ?thesis by (rule conjI [rotated])
  next
    case False
    with c1 have s1: "nextPlayerId s1 = nextPlayerId s" and a1: "assigned_ids effs1 = []"
      by simp_all
    from Cons.prems(2) False s1 have "nextPlayerId s1 + length (filter is_Connection es) \<le> 2 ^ 53"
      by simp
    from Cons.IH [OF rn this] s1 a1 False show ?thesis
      by (simp add: effs assigned_ids_append)
  qed
qed

lemma counter_bounded:
  "run s es = Inr (s', effs) \<Longrightarrow> nextPlayerId s \<le> 2 ^ 53 \<Longrightarrow> nextPlayerId s' \<le> 2 ^ 53"
proof (induction es arbitrary: s effs)
  case Nil
  then show ?case by simp
next
  case (Cons e es)
  from Cons.prems(1) obtain s1 effs1 effs2
    where st: "step s e = Inr (s1, effs1)" and rn: "run s1 es = Inr (s', effs2)"
    by (auto split: sum.splits prod.splits)
  from step_counter [OF st] Cons.prems(2) have "nextPlayerId s1 \<le> 2 ^ 53"
    by (simp add: js_increment_def split: if_splits)
  with rn show ?case
    by (rule Cons.IH)
qed

subsection \<open>A process that lives long enough reuses an id\<close>

lemma run_append:
  "run s (es1 @ es2) =
     (case run s es1 of
        Inl err \<Rightarrow> Inl err
      | Inr (s1, effs1) \<Rightarrow>
          (case run s1 es2 of
             Inl err \<Rightarrow> Inl err
           | Inr (s2, effs2) \<Rightarrow> Inr (s2, effs1 @ effs2)))"
  by (induction es1 arbitrary: s) (auto split: sum.splits prod.splits)

lemma connects_Suc: "connects (Suc k) = connects k @ [Connection k rnd_A]"
  by (simp add: connects_def)

lemma length_connects: "length (filter is_Connection (connects k)) = k"
  by (induction k) (simp_all add: connects_Suc, simp add: connects_def)

lemma run_connects:
  "\<exists>s effects. run initial_state (connects k) = Inr (s, effects)
     \<and> nextPlayerId s = min (Suc k) (2 ^ 53)
     \<and> assigned_ids effects = map (\<lambda>i. playerId_of (min (Suc i) (2 ^ 53))) [0..<k]
     \<and> (0 < k \<longrightarrow> map_of (players s) (playerId_of (min k (2 ^ 53)))
            = Some (new_player (playerId_of (min k (2 ^ 53))) (getRandomColor rnd_A)))"
proof (induction k)
  case 0
  show ?case
    by (simp add: connects_def initial_state_def)
next
  case (Suc k)
  then obtain s effects where r: "run initial_state (connects k) = Inr (s, effects)"
    and n: "nextPlayerId s = min (Suc k) (2 ^ 53)"
    and a: "assigned_ids effects = map (\<lambda>i. playerId_of (min (Suc i) (2 ^ 53))) [0..<k]"
    by blast
  obtain s' pid effs where c: "on_connection s k rnd_A = (s', pid, effs)"
    by (cases "on_connection s k rnd_A") blast
  then have st: "step s (Connection k rnd_A) = Inr (s', effs)"
    by simp
  from step_counter [OF st] n
  have n': "nextPlayerId s' = min (Suc (Suc k)) (2 ^ 53)"
    and a': "assigned_ids effs = [playerId_of (min (Suc k) (2 ^ 53))]"
    by (simp_all only: is_Connection.simps if_True js_increment_min)
  from c n have p: "map_of (players s') (playerId_of (min (Suc k) (2 ^ 53)))
      = Some (new_player (playerId_of (min (Suc k) (2 ^ 53))) (getRandomColor rnd_A))"
    by (auto simp: on_connection_def Let_def update_conv')
  from r st have "run initial_state (connects (Suc k)) = Inr (s', effects @ effs)"
    by (simp add: connects_Suc run_append)
  moreover have "assigned_ids (effects @ effs)
      = map (\<lambda>i. playerId_of (min (Suc i) (2 ^ 53))) [0..<Suc k]"
    by (simp only: assigned_ids_append a a' upt_Suc_append [OF le0] map_append list.map)
  ultimately show ?case
    using n' p by blast
qed

lemma ids_of_connects:
  "ids_of_run (connects k) = map (\<lambda>i. playerId_of (min (Suc i) (2 ^ 53))) [0..<k]"
proof -
  from run_connects [of k] obtain s effects
    where "run initial_state (connects k) = Inr (s, effects)"
      and "assigned_ids effects = map (\<lambda>i. playerId_of (min (Suc i) (2 ^ 53))) [0..<k]"
    by blast
  then show ?thesis
    by (simp add: ids_of_run_def)
qed

lemma ids_reused:
  assumes "2 ^ 53 < k"
  shows "ids_of_run (connects k) ! (2 ^ 53 - 1) = playerId_of (2 ^ 53)
       \<and> ids_of_run (connects k) ! (2 ^ 53) = playerId_of (2 ^ 53)
       \<and> \<not> distinct (ids_of_run (connects k))"
proof -
  let ?ids = "ids_of_run (connects k)"
  from assms have lt: "(2::nat) ^ 53 - 1 < k" "(2::nat) ^ 53 < k"
    by simp_all
  have len: "length ?ids = k"
    by (simp add: ids_of_connects)
  from lt(1) have 1: "?ids ! (2 ^ 53 - 1) = playerId_of (2 ^ 53)"
    by (simp add: ids_of_connects)
  from lt(2) have 2: "?ids ! (2 ^ 53) = playerId_of (2 ^ 53)"
    by (simp add: ids_of_connects)
  have "\<not> distinct ?ids"
  proof
    assume "distinct ?ids"
    then have "?ids ! (2 ^ 53 - 1) \<noteq> ?ids ! (2 ^ 53)"
      using lt len by (simp add: distinct_conv_nth)
    with 1 2 show False
      by simp
  qed
  with 1 2 show ?thesis
    by (intro conjI)
qed

subsection \<open>The handlers, case by case\<close>

lemma sent_to_map_Send:
  "sent_to h (map (\<lambda>client. Send (handle client) m) cs)
     = replicate (length (filter (\<lambda>client. handle client = h) cs)) m"
  by (induction cs) simp_all

lemma Send_in_broadcast:
  "Send h m \<in> set (broadcast s m') \<longleftrightarrow>
     m = m' \<and> (\<exists>client\<in>set (wss_clients s). handle client = h \<and> readyState client = OPEN)"
  by (auto simp: broadcast_def)

lemma direction_switch_vocabulary:
  "direction \<notin> {Some (JString ''w''), Some (JString ''a''), Some (JString ''s''), Some (JString ''d'')}
     \<Longrightarrow> direction_switch direction pos = pos"
  by (cases pos) (simp add: direction_switch_def)

lemma movement_d:
  assumes "map_of (players s) ws_id = Some p"
    and "player_x p = initialX" and "player_y p = initialY"
    and "get_prop parsedMessage ''type'' = Inr (Some (JString ''movement''))"
    and "get_prop parsedMessage ''direction'' = Inr (Some (JString ''d''))"
  shows "on_message s ws_id (Some parsedMessage)
       = Inr (s\<lparr>players := AList.update ws_id (p\<lparr>player_x := player_x p + MOVEMENT_SPEED\<rparr>) (players s)\<rparr>,
              SetPlayer ws_id (p\<lparr>player_x := player_x p + MOVEMENT_SPEED\<rparr>)
              # broadcast s (PlayerMoved ws_id (player_x p + MOVEMENT_SPEED) (player_y p)))"
proof -
  have "direction_switch (Some (JString ''d'')) (player_x p, player_y p)
      = (player_x p + MOVEMENT_SPEED, player_y p)"
    using assms(2)
    by (simp add: direction_switch_def initialX_def WORLD_SIZE_def PLAYER_SIZE_def MOVEMENT_SPEED_def)
  moreover have "player_x p + MOVEMENT_SPEED \<noteq> player_x p"
    by (simp add: MOVEMENT_SPEED_def)
  ultimately show ?thesis
    using assms(1,4,5) by (simp add: on_message_def movement_case_def Let_def broadcast_def)
qed

lemma movement_w:
  assumes "map_of (players s) ws_id = Some p" and "player_y p = initialY"
    and "get_prop parsedMessage ''type'' = Inr (Some (JString ''movement''))"
    and "get_prop parsedMessage ''direction'' = Inr (Some (JString ''w''))"
  shows "on_message s ws_id (Some parsedMessage)
       = Inr (s\<lparr>players := AList.update ws_id (p\<lparr>player_y := player_y p - MOVEMENT_SPEED\<rparr>) (players s)\<rparr>,
              SetPlayer ws_id (p\<lparr>player_y := player_y p - MOVEMENT_SPEED\<rparr>)
              # broadcast s (PlayerMoved ws_id (player_x p) (player_y p - MOVEMENT_SPEED)))"
proof -
  have "direction_switch (Some (JString ''w'')) (player_x p, player_y p)
      = (player_x p, player_y p - MOVEMENT_SPEED)"
    using assms(2)
    by (simp add: direction_switch_def initialY_def WORLD_SIZE_def PLAYER_SIZE_def MOVEMENT_SPEED_def)
  moreover have "player_y p - MOVEMENT_SPEED \<noteq> player_y p"
    by (simp add: MOVEMENT_SPEED_def)
  ultimately show ?thesis
    using assms(1,3,4) by (simp add: on_message_def movement_case_def Let_def broadcast_def)
qed

lemma movement_a:
  assumes "map_of (players s) ws_id = Some p" and "player_x p = initialX"
    and "get_prop parsedMessage ''type'' = Inr (Some (JString ''movement''))"
    and "get_prop parsedMessage ''direction'' = Inr (Some (JString ''a''))"
  shows "on_message s ws_id (Some parsedMessage)
       = Inr (s\<lparr>players := AList.update ws_id (p\<lparr>player_x := player_x p - MOVEMENT_SPEED\<rparr>) (players s)\<rparr>,
              SetPlayer ws_id (p\<lparr>player_x := player_x p - MOVEMENT_SPEED\<rparr>)
              # broadcast s (PlayerMoved ws_id (player_x p - MOVEMENT_SPEED) (player_y p)))"
proof -
  have "direction_switch (Some (JString ''a'')) (player_x p, player_y p)
      = (player_x p - MOVEMENT_SPEED, player_y p)"
    using assms(2)
    by (simp add: direction_switch_def initialX_def WORLD_SIZE_def PLAYER_SIZE_def MOVEMENT_SPEED_def)
  moreover have "player_x p - MOVEMENT_SPEED \<noteq> player_x p"
    by (simp add: MOVEMENT_SPEED_def)
  ultimately show ?thesis
    using assms(1,3,4) by (simp add: on_message_def movement_case_def Let_def broadcast_def)
qed

lemma movement_s:
  assumes "map_of (players s) ws_id = Some p" and "player_y p = initialY"
    and "get_prop parsedMessage ''type'' = Inr (Some (JString ''movement''))"
    and "get_prop parsedMessage ''direction'' = Inr (Some (JString ''s''))"
  shows "on_message s ws_id (Some parsedMessage)
       = Inr (s\<lparr>players := AList.update ws_id (p\<lparr>player_y := player_y p + MOVEMENT_SPEED\<rparr>) (players s)\<rparr>,
              SetPlayer ws_id (p\<lparr>player_y := player_y p + MOVEMENT_SPEED\<rparr>)
              # broadcast s (PlayerMoved ws_id (player_x p) (player_y p + MOVEMENT_SPEED)))"
proof -
  have "direction_switch (Some (JString ''s'')) (player_x p, player_y p)
      = (player_x p, player_y p + MOVEMENT_SPEED)"
    using assms(2)
    by (simp add: direction_switch_def initialY_def WORLD_SIZE_def PLAYER_SIZE_def MOVEMENT_SPEED_def)
  moreover have "player_y p + MOVEMENT_SPEED \<noteq> player_y p"
    by (simp add: MOVEMENT_SPEED_def)
  ultimately show ?thesis
    using assms(1,3,4) by (simp add: on_message_def movement_case_def Let_def broadcast_def)
qed

lemma movement_absent:
  assumes "map_of (players s) (playerId_of n) = None"
    and "get_prop parsedMessage ''type'' = Inr (Some (JString ''movement''))"
  shows "on_message s (playerId_of n) (Some parsedMessage) = Inr (s, [])"
  using assms by (simp add: on_message_def movement_case_def)

lemma chat_always_faults:
  assumes "get_prop parsedMessage ''type'' = Inr (Some (JString ''chat''))"
  shows "on_message s ws_id (Some parsedMessage) = Inl ReferenceError"
  using assms by (simp add: on_message_def chat_case_Uninitialized)

lemma parse_failure_dropped: "on_message s ws_id None = Inr (s, [])"
  by (simp add: on_message_def)

lemma unknown_type_dropped:
  assumes "get_prop parsedMessage ''type'' = Inr type"
    and "type \<noteq> Some (JString ''movement'')" and "type \<noteq> Some (JString ''chat'')"
    and "\<And>v. type = Some v \<Longrightarrow> \<not> toString_throws v"
  shows "on_message s ws_id (Some parsedMessage) = Inr (s, [])"
  using assms by (auto simp: on_message_def split: option.splits)

lemma connection_effects:
  assumes "on_connection s ws rnd = (s', playerId, effects)"
  shows "playerId = playerId_of (nextPlayerId s)
    \<and> players s' = AList.update playerId (new_player playerId (getRandomColor rnd)) (players s)
    \<and> map_of (players s') playerId = Some (new_player playerId (getRandomColor rnd))
    \<and> effects = [SetPlayer playerId (new_player playerId (getRandomColor rnd)),
                  Send ws (Init playerId (new_player playerId (getRandomColor rnd)) WORLD_SIZE PLAYER_SIZE),
                  Send ws (CurrentPlayers (players s'))]
                 @ map (\<lambda>client. Send (handle client) (PlayerJoined (new_player playerId (getRandomColor rnd))))
                     (filter (\<lambda>client. handle client \<noteq> ws \<and> readyState client = OPEN) (wss_clients s))"
  using assms by (auto simp: on_connection_def Let_def update_conv')

lemma connection_sent_to_new:
  assumes "on_connection s ws rnd = (s', playerId, effects)"
  shows "sent_to ws effects
       = [Init playerId (new_player playerId (getRandomColor rnd)) WORLD_SIZE PLAYER_SIZE,
          CurrentPlayers (players s')]"
proof -
  have "filter (\<lambda>client. handle client = ws)
          (filter (\<lambda>client. handle client \<noteq> ws \<and> readyState client = OPEN) (wss_clients s)) = []"
    by (simp add: filter_empty_conv)
  then show ?thesis
    using connection_effects [OF assms] by (simp add: sent_to_map_Send)
qed

lemma connection_sent_to_other:
  assumes "on_connection s ws rnd = (s', playerId, effects)" and "h \<noteq> ws"
  shows "sent_to h effects
       = replicate (length (filter (\<lambda>client. handle client = h \<and> readyState client = OPEN) (wss_clients s)))
           (PlayerJoined (new_player playerId (getRandomColor rnd)))"
proof -
  have "filter (\<lambda>client. handle client = h)
          (filter (\<lambda>client. handle client \<noteq> ws \<and> readyState client = OPEN) (wss_clients s))
      = filter (\<lambda>client. handle client = h \<and> readyState client = OPEN) (wss_clients s)"
    using \<open>h \<noteq> ws\<close> by (auto intro: filter_cong)
  then show ?thesis
    using connection_effects [OF assms(1)] \<open>h \<noteq> ws\<close> by (simp add: sent_to_map_Send)
qed

subsection \<open>An id that has left does not come back\<close>

lemma Send_snapshots: "Send h (CurrentPlayers snapshot) \<in> set effects \<Longrightarrow> snapshot \<in> set (snapshots effects)"
  by (induction effects rule: snapshots.induct) auto

lemma step_absent:
  assumes absent: "map_of (players s) (playerId_of n) = None" and old: "n < nextPlayerId s"
    and st: "step s e = Inr (s', effs)"
  shows "map_of (players s') (playerId_of n) = None \<and> n < nextPlayerId s'
       \<and> (\<forall>snapshot\<in>set (snapshots effs). map_of snapshot (playerId_of n) = None)"
proof -
  have ne: "playerId_of (nextPlayerId s) \<noteq> playerId_of n"
    using old playerId_of_inject [of "nextPlayerId s" n] by auto
  have a: "map_of (players s') (playerId_of n) = None"
    using step_players_cases [OF st] absent ne
    by (auto simp: update_conv' delete_conv')
  from step_counter [OF st] old js_increment_ge [of "nextPlayerId s"]
  have "n < nextPlayerId s'"
    by (auto split: if_splits)
  with step_counter [OF st] a show ?thesis
    by (auto split: if_splits)
qed

lemma run_absent:
  "run s es = Inr (s', effs) \<Longrightarrow> map_of (players s) (playerId_of n) = None \<Longrightarrow> n < nextPlayerId s \<Longrightarrow>
   map_of (players s') (playerId_of n) = None
     \<and> (\<forall>snapshot\<in>set (snapshots effs). map_of snapshot (playerId_of n) = None)"
proof (induction es arbitrary: s effs)
  case Nil
  then show ?case by simp
next
  case (Cons e es)
  from Cons.prems(1) obtain s1 effs1 effs2
    where st: "step s e = Inr (s1, effs1)" and rn: "run s1 es = Inr (s', effs2)"
      and effs: "effs = effs1 @ effs2"
    by (auto split: sum.splits prod.splits)
  from step_absent [OF Cons.prems(2,3) st]
  have 1: "map_of (players s1) (playerId_of n) = None" and 2: "n < nextPlayerId s1"
    and 3: "\<forall>snapshot\<in>set (snapshots effs1). map_of snapshot (playerId_of n) = None"
    by simp_all
  from Cons.IH [OF rn 1 2] 3 show ?case
    by (auto simp: effs snapshots_append)
qed

lemma close_effects:
  assumes "on_close s ws_id = (s', effects)"
  shows "players s' = AList.delete ws_id (players s)
     \<and> map_of (players s') ws_id = None
     \<and> nextPlayerId s' = nextPlayerId s
     \<and> effects = DeletePlayer ws_id # broadcast s (PlayerLeft ws_id)"
  using assms by (auto simp: on_close_def Let_def delete_conv' broadcast_def)

subsection \<open>The scenarios, evaluated\<close>

lemma run_connect_AB: "run initial_state connect_AB = Inr (state_AB, effects_AB)"
  by code_simp

lemma run_moved:
  "run initial_state (connect_AB @ [Message 1 (Some (movement_msg ''d''))])
     = Inr (state_moved, effects_AB @ effects_moved)"
  by code_simp

lemma run_closing:
  "run initial_state (connect_AB @ [Transport [ws_B]]) = Inr (state_AB_closing, effects_AB)"
  by code_simp

lemma run_connect_C:
  "run state_B [Transport [ws_B, ws_C], Connection 2 (\<lambda>i. 12)] = Inr (state_BC, effects_C)"
  by code_simp

lemma on_message_w:
  "on_message state_AB ''player-1'' (Some (movement_msg ''w''))
     = Inr (state_AB\<lparr>players := [(''player-1'', player_A\<lparr>player_y := 235\<rparr>), (''player-2'', player_B)]\<rparr>,
            [SetPlayer ''player-1'' (player_A\<lparr>player_y := 235\<rparr>),
             Send 0 (PlayerMoved ''player-1'' 240 235), Send 1 (PlayerMoved ''player-1'' 240 235)])"
  by code_simp

lemma on_message_a:
  "on_message state_AB ''player-1'' (Some (movement_msg ''a''))
     = Inr (state_AB\<lparr>players := [(''player-1'', player_A\<lparr>player_x := 235\<rparr>), (''player-2'', player_B)]\<rparr>,
            [SetPlayer ''player-1'' (player_A\<lparr>player_x := 235\<rparr>),
             Send 0 (PlayerMoved ''player-1'' 235 240), Send 1 (PlayerMoved ''player-1'' 235 240)])"
  by code_simp

lemma on_message_s:
  "on_message state_AB ''player-1'' (Some (movement_msg ''s''))
     = Inr (state_AB\<lparr>players := [(''player-1'', player_A\<lparr>player_y := 245\<rparr>), (''player-2'', player_B)]\<rparr>,
            [SetPlayer ''player-1'' (player_A\<lparr>player_y := 245\<rparr>),
             Send 0 (PlayerMoved ''player-1'' 240 245), Send 1 (PlayerMoved ''player-1'' 240 245)])"
  by code_simp

lemma run_connect_A:
  "map_sum id fst (run initial_state [Transport [ws_A], Connection 0 (\<lambda>i. 10), Transport [ws_A, ws_B]])
     = Inr state_A"
  by code_simp

lemma run_disconnect_A:
  "run initial_state (connect_AB @ [Transport [ws_B], Close 1])
     = Inr (state_B, effects_AB @ [DeletePlayer ''player-1'', Send 1 (PlayerLeft ''player-1'')])"
  by code_simp

lemma run_walk_west: "map_sum id fst (run initial_state walk_west) = Inr state_edge"
  by code_simp

lemma on_connection_B:
  "on_connection state_A 1 (\<lambda>i. 11)
     = (state_AB, ''player-2'',
        [SetPlayer ''player-2'' player_B,
         Send 1 (Init ''player-2'' player_B 500 20),
         Send 1 (CurrentPlayers [(''player-1'', player_A), (''player-2'', player_B)]),
         Send 0 (PlayerJoined player_B)])"
  by code_simp

lemma on_close_A:
  "on_close state_AB_closing ''player-1''
     = (state_B, [DeletePlayer ''player-1'', Send 1 (PlayerLeft ''player-1'')])"
  by code_simp

lemma playerId_of_last: "playerId_of 9007199254740992 = ''player-9007199254740992''"
  by (simp add: playerId_of_def number_toString.simps digit_char_def)

lemma two_53: "(2::nat) ^ 53 = 9007199254740992"
  by simp

lemma new_player_last:
  "new_player ''player-9007199254740992'' (getRandomColor rnd_A) = player_last"
  by code_simp

lemma reissue:
  assumes r: "run initial_state es = Inr (s, effects)" and n: "nextPlayerId s = 2 ^ 53"
  shows "map_of (registry_after (es @ [Close (2 ^ 53)])) (playerId_of (2 ^ 53)) = None
       \<and> map_of (last (snapshots_of_run (es @ [Close (2 ^ 53), Connection ws rnd])))
            (playerId_of (2 ^ 53))
          = Some (new_player (playerId_of (2 ^ 53)) (getRandomColor rnd))"
proof -
  obtain s1 effs1 where c: "on_close s (playerId_of (2 ^ 53)) = (s1, effs1)"
    by (cases "on_close s (playerId_of (2 ^ 53))") blast
  obtain s2 pid effs2 where o: "on_connection s1 ws rnd = (s2, pid, effs2)"
    by (cases "on_connection s1 ws rnd") blast
  from c have st1: "step s (Close (2 ^ 53)) = Inr (s1, effs1)"
    by simp
  from o have st2: "step s1 (Connection ws rnd) = Inr (s2, effs2)"
    by simp
  note ce = close_effects [OF c]
  from ce n have n1: "nextPlayerId s1 = 2 ^ 53"
    by simp
  from r st1 have r1: "run initial_state (es @ [Close (2 ^ 53)]) = Inr (s1, effects @ effs1)"
    by (simp add: run_append)
  from r st1 st2
  have r2: "run initial_state (es @ [Close (2 ^ 53), Connection ws rnd])
              = Inr (s2, effects @ effs1 @ effs2)"
    by (simp add: run_append)
  from r1 have "registry_after (es @ [Close (2 ^ 53)]) = players s1"
    by (simp add: registry_after_def)
  with ce [THEN conjunct2, THEN conjunct1]
  have 1: "map_of (registry_after (es @ [Close (2 ^ 53)])) (playerId_of (2 ^ 53)) = None"
    by (simp only:)
  from step_counter [OF st2] have "snapshots effs2 = [players s2]"
    by simp
  with r2 have l: "last (snapshots_of_run (es @ [Close (2 ^ 53), Connection ws rnd])) = players s2"
    by (simp add: snapshots_of_run_def snapshots_append)
  note co = connection_effects [OF o]
  from co [THEN conjunct1] n1 have "pid = playerId_of (2 ^ 53)"
    by (simp only:)
  with co [THEN conjunct2, THEN conjunct2, THEN conjunct1]
  have "map_of (players s2) (playerId_of (2 ^ 53))
      = Some (new_player (playerId_of (2 ^ 53)) (getRandomColor rnd))"
    by (simp only:)
  with l have "map_of (last (snapshots_of_run (es @ [Close (2 ^ 53), Connection ws rnd])))
            (playerId_of (2 ^ 53))
          = Some (new_player (playerId_of (2 ^ 53)) (getRandomColor rnd))"
    by (simp only:)
  with 1 show ?thesis
    by (rule conjI)
qed

lemma registry_after_connects:
  "0 < k \<Longrightarrow> map_of (registry_after (connects k)) (playerId_of (min k (2 ^ 53)))
     = Some (new_player (playerId_of (min k (2 ^ 53))) (getRandomColor rnd_A))"
  using run_connects [of k] by (auto simp: registry_after_def)

section \<open>The claims\<close>


subsection \<open>Movement\<close>

text \<open>
  C1, as the code has it. The directions the server understands are the key names
  \<^verbatim>\<open>w\<close>, \<^verbatim>\<open>a\<close>, \<^verbatim>\<open>s\<close>, \<^verbatim>\<open>d\<close> (commented Up, Left, Down, Right in the source); every
  other direction leaves a position as it is. For a player whose registry entry is at the
  centre, a movement message with direction \<^verbatim>\<open>d\<close> sets x to x + MOVEMENT_SPEED and keeps
  y; likewise \<^verbatim>\<open>w\<close> sets y to y - MOVEMENT_SPEED, \<^verbatim>\<open>a\<close> sets x to x - MOVEMENT_SPEED and
  \<^verbatim>\<open>s\<close> sets y to y + MOVEMENT_SPEED, each keeping the other coordinate. In each case a
  \<^verbatim>\<open>playerMoved\<close> message with the mover's id and the new coordinates is sent on every
  open connection, the sender's own included.
\<close>

theorem movement_d_from_center:
  assumes "map_of (players s) ws_id = Some p"
    and "player_x p = initialX" and "player_y p = initialY"
    and "get_prop parsedMessage ''type'' = Inr (Some (JString ''movement''))"
    and "get_prop parsedMessage ''direction'' = Inr (Some (JString ''d''))"
  shows "on_message s ws_id (Some parsedMessage)
       = Inr (s\<lparr>players := AList.update ws_id (p\<lparr>player_x := player_x p + MOVEMENT_SPEED\<rparr>) (players s)\<rparr>,
              SetPlayer ws_id (p\<lparr>player_x := player_x p + MOVEMENT_SPEED\<rparr>)
              # broadcast s (PlayerMoved ws_id (player_x p + MOVEMENT_SPEED) (player_y p)))
     \<and> map_of (AList.update ws_id (p\<lparr>player_x := player_x p + MOVEMENT_SPEED\<rparr>) (players s)) ws_id
       = Some (p\<lparr>player_x := player_x p + MOVEMENT_SPEED\<rparr>)
     \<and> player_y (p\<lparr>player_x := player_x p + MOVEMENT_SPEED\<rparr>) = player_y p
     \<and> (\<forall>client\<in>set (wss_clients s). readyState client = OPEN \<longrightarrow>
          Send (handle client) (PlayerMoved ws_id (player_x p + MOVEMENT_SPEED) (player_y p))
            \<in> set (broadcast s (PlayerMoved ws_id (player_x p + MOVEMENT_SPEED) (player_y p))))
     \<and> (\<forall>direction pos.
          direction \<notin> {Some (JString ''w''), Some (JString ''a''), Some (JString ''s''), Some (JString ''d'')}
            \<longrightarrow> direction_switch direction pos = pos)
     \<and> (\<forall>m. get_prop m ''type'' = Inr (Some (JString ''movement'')) \<longrightarrow>
             get_prop m ''direction'' = Inr (Some (JString ''w'')) \<longrightarrow>
          on_message s ws_id (Some m)
            = Inr (s\<lparr>players := AList.update ws_id (p\<lparr>player_y := player_y p - MOVEMENT_SPEED\<rparr>) (players s)\<rparr>,
                   SetPlayer ws_id (p\<lparr>player_y := player_y p - MOVEMENT_SPEED\<rparr>)
                   # broadcast s (PlayerMoved ws_id (player_x p) (player_y p - MOVEMENT_SPEED))))
     \<and> (\<forall>m. get_prop m ''type'' = Inr (Some (JString ''movement'')) \<longrightarrow>
             get_prop m ''direction'' = Inr (Some (JString ''a'')) \<longrightarrow>
          on_message s ws_id (Some m)
            = Inr (s\<lparr>players := AList.update ws_id (p\<lparr>player_x := player_x p - MOVEMENT_SPEED\<rparr>) (players s)\<rparr>,
                   SetPlayer ws_id (p\<lparr>player_x := player_x p - MOVEMENT_SPEED\<rparr>)
                   # broadcast s (PlayerMoved ws_id (player_x p - MOVEMENT_SPEED) (player_y p))))
     \<and> (\<forall>m. get_prop m ''type'' = Inr (Some (JString ''movement'')) \<longrightarrow>
             get_prop m ''direction'' = Inr (Some (JString ''s'')) \<longrightarrow>
          on_message s ws_id (Some m)
            = Inr (s\<lparr>players := AList.update ws_id (p\<lparr>player_y := player_y p + MOVEMENT_SPEED\<rparr>) (players s)\<rparr>,
                   SetPlayer ws_id (p\<lparr>player_y := player_y p + MOVEMENT_SPEED\<rparr>)
                   # broadcast s (PlayerMoved ws_id (player_x p) (player_y p + MOVEMENT_SPEED))))
     \<and> (\<forall>moved. \<forall>client\<in>set (wss_clients s). readyState client = OPEN \<longrightarrow>
          Send (handle client) moved \<in> set (broadcast s moved))"
proof (intro conjI allI impI ballI)
  show "on_message s ws_id (Some parsedMessage)
       = Inr (s\<lparr>players := AList.update ws_id (p\<lparr>player_x := player_x p + MOVEMENT_SPEED\<rparr>) (players s)\<rparr>,
              SetPlayer ws_id (p\<lparr>player_x := player_x p + MOVEMENT_SPEED\<rparr>)
              # broadcast s (PlayerMoved ws_id (player_x p + MOVEMENT_SPEED) (player_y p)))"
    using assms by (rule movement_d)
next
  show "map_of (AList.update ws_id (p\<lparr>player_x := player_x p + MOVEMENT_SPEED\<rparr>) (players s)) ws_id
       = Some (p\<lparr>player_x := player_x p + MOVEMENT_SPEED\<rparr>)"
    by (simp add: update_conv')
next
  show "player_y (p\<lparr>player_x := player_x p + MOVEMENT_SPEED\<rparr>) = player_y p"
    by simp
next
  fix client
  assume "client \<in> set (wss_clients s)" and "readyState client = OPEN"
  then show "Send (handle client) (PlayerMoved ws_id (player_x p + MOVEMENT_SPEED) (player_y p))
            \<in> set (broadcast s (PlayerMoved ws_id (player_x p + MOVEMENT_SPEED) (player_y p)))"
    by (auto simp: Send_in_broadcast)
next
  fix direction :: "json option" and pos :: "int \<times> int"
  assume "direction \<notin> {Some (JString ''w''), Some (JString ''a''), Some (JString ''s''), Some (JString ''d'')}"
  then show "direction_switch direction pos = pos"
    by (rule direction_switch_vocabulary)
next
  fix m
  assume "get_prop m ''type'' = Inr (Some (JString ''movement''))"
    and "get_prop m ''direction'' = Inr (Some (JString ''w''))"
  with assms(1,3) show "on_message s ws_id (Some m)
            = Inr (s\<lparr>players := AList.update ws_id (p\<lparr>player_y := player_y p - MOVEMENT_SPEED\<rparr>) (players s)\<rparr>,
                   SetPlayer ws_id (p\<lparr>player_y := player_y p - MOVEMENT_SPEED\<rparr>)
                   # broadcast s (PlayerMoved ws_id (player_x p) (player_y p - MOVEMENT_SPEED)))"
    by (rule movement_w)
next
  fix m
  assume "get_prop m ''type'' = Inr (Some (JString ''movement''))"
    and "get_prop m ''direction'' = Inr (Some (JString ''a''))"
  with assms(1,2) show "on_message s ws_id (Some m)
            = Inr (s\<lparr>players := AList.update ws_id (p\<lparr>player_x := player_x p - MOVEMENT_SPEED\<rparr>) (players s)\<rparr>,
                   SetPlayer ws_id (p\<lparr>player_x := player_x p - MOVEMENT_SPEED\<rparr>)
                   # broadcast s (PlayerMoved ws_id (player_x p - MOVEMENT_SPEED) (player_y p)))"
    by (rule movement_a)
next
  fix m
  assume "get_prop m ''type'' = Inr (Some (JString ''movement''))"
    and "get_prop m ''direction'' = Inr (Some (JString ''s''))"
  with assms(1,3) show "on_message s ws_id (Some m)
            = Inr (s\<lparr>players := AList.update ws_id (p\<lparr>player_y := player_y p + MOVEMENT_SPEED\<rparr>) (players s)\<rparr>,
                   SetPlayer ws_id (p\<lparr>player_y := player_y p + MOVEMENT_SPEED\<rparr>)
                   # broadcast s (PlayerMoved ws_id (player_x p) (player_y p + MOVEMENT_SPEED)))"
    by (rule movement_s)
next
  fix moved client
  assume "client \<in> set (wss_clients s)" and "readyState client = OPEN"
  then show "Send (handle client) moved \<in> set (broadcast s moved)"
    by (auto simp: Send_in_broadcast)
qed

text \<open>
  The scenario of the specification, with \<^verbatim>\<open>d\<close> for right: A moves from the centre,
  and both A and B are sent \<^verbatim>\<open>playerMoved\<close> with x = 245, y = 240. From the centre
  \<^verbatim>\<open>w\<close> takes A to (240, 235), \<^verbatim>\<open>a\<close> to (235, 240) and \<^verbatim>\<open>s\<close> to (240, 245).
\<close>

theorem movement_d_from_center_witness:
  "map_of (players state_AB) ''player-1'' = Some player_A
   \<and> player_x player_A = initialX \<and> player_y player_A = initialY
   \<and> get_prop (movement_msg ''d'') ''type'' = Inr (Some (JString ''movement''))
   \<and> get_prop (movement_msg ''d'') ''direction'' = Inr (Some (JString ''d''))
   \<and> on_message state_AB ''player-1'' (Some (movement_msg ''d'')) = Inr (state_moved, effects_moved)
   \<and> ws_B \<in> set (wss_clients state_AB) \<and> readyState ws_B = OPEN
   \<and> Send (handle ws_B) (PlayerMoved ''player-1'' 245 240) \<in> set effects_moved
   \<and> Some (JString ''right'') \<notin> {Some (JString ''w''), Some (JString ''a''), Some (JString ''s''), Some (JString ''d'')}
   \<and> direction_switch (Some (JString ''right'')) (240, 240) = (240, 240)
   \<and> get_prop (movement_msg ''w'') ''type'' = Inr (Some (JString ''movement''))
   \<and> get_prop (movement_msg ''w'') ''direction'' = Inr (Some (JString ''w''))
   \<and> on_message state_AB ''player-1'' (Some (movement_msg ''w''))
       = Inr (state_AB\<lparr>players := [(''player-1'', player_A\<lparr>player_y := 235\<rparr>), (''player-2'', player_B)]\<rparr>,
              [SetPlayer ''player-1'' (player_A\<lparr>player_y := 235\<rparr>),
               Send 0 (PlayerMoved ''player-1'' 240 235), Send 1 (PlayerMoved ''player-1'' 240 235)])
   \<and> get_prop (movement_msg ''a'') ''type'' = Inr (Some (JString ''movement''))
   \<and> get_prop (movement_msg ''a'') ''direction'' = Inr (Some (JString ''a''))
   \<and> on_message state_AB ''player-1'' (Some (movement_msg ''a''))
       = Inr (state_AB\<lparr>players := [(''player-1'', player_A\<lparr>player_x := 235\<rparr>), (''player-2'', player_B)]\<rparr>,
              [SetPlayer ''player-1'' (player_A\<lparr>player_x := 235\<rparr>),
               Send 0 (PlayerMoved ''player-1'' 235 240), Send 1 (PlayerMoved ''player-1'' 235 240)])
   \<and> get_prop (movement_msg ''s'') ''type'' = Inr (Some (JString ''movement''))
   \<and> get_prop (movement_msg ''s'') ''direction'' = Inr (Some (JString ''s''))
   \<and> on_message state_AB ''player-1'' (Some (movement_msg ''s''))
       = Inr (state_AB\<lparr>players := [(''player-1'', player_A\<lparr>player_y := 245\<rparr>), (''player-2'', player_B)]\<rparr>,
              [SetPlayer ''player-1'' (player_A\<lparr>player_y := 245\<rparr>),
               Send 0 (PlayerMoved ''player-1'' 240 245), Send 1 (PlayerMoved ''player-1'' 240 245)])
   \<and> Send (handle ws_B) (PlayerMoved ''player-1'' 240 235)
       \<in> set (broadcast state_AB (PlayerMoved ''player-1'' 240 235))"
proof -
  have h1: "map_of (players state_AB) ''player-1'' = Some player_A"
    by (simp add: state_AB_def)
  have h2: "player_x player_A = initialX" and h3: "player_y player_A = initialY"
    by (simp_all add: player_A_def initialX_def initialY_def WORLD_SIZE_def PLAYER_SIZE_def)
  have h4: "get_prop (movement_msg ''d'') ''type'' = Inr (Some (JString ''movement''))"
    and h5: "get_prop (movement_msg ''d'') ''direction'' = Inr (Some (JString ''d''))"
    by (simp_all add: movement_msg_def)
  have w: "get_prop (movement_msg ''w'') ''type'' = Inr (Some (JString ''movement''))"
    "get_prop (movement_msg ''w'') ''direction'' = Inr (Some (JString ''w''))"
    and a: "get_prop (movement_msg ''a'') ''type'' = Inr (Some (JString ''movement''))"
    "get_prop (movement_msg ''a'') ''direction'' = Inr (Some (JString ''a''))"
    and s': "get_prop (movement_msg ''s'') ''type'' = Inr (Some (JString ''movement''))"
    "get_prop (movement_msg ''s'') ''direction'' = Inr (Some (JString ''s''))"
    by (simp_all add: movement_msg_def)
  note c = movement_d_from_center [OF h1 h2 h3 h4 h5]
  note c1 = c [THEN conjunct1]
  note c4 = c [THEN conjunct2, THEN conjunct2, THEN conjunct2, THEN conjunct1, rule_format]
  note r5 = c [THEN conjunct2, THEN conjunct2, THEN conjunct2, THEN conjunct2]
  note c5 = r5 [THEN conjunct1, rule_format]
  note cw = r5 [THEN conjunct2, THEN conjunct1, rule_format, OF w]
  note ca = r5 [THEN conjunct2, THEN conjunct2, THEN conjunct1, rule_format, OF a]
  note cs = r5 [THEN conjunct2, THEN conjunct2, THEN conjunct2, THEN conjunct1, rule_format, OF s']
  note cb = r5 [THEN conjunct2, THEN conjunct2, THEN conjunct2, THEN conjunct2, rule_format]
  have s: "state_AB\<lparr>players := AList.update ''player-1''
             (player_A\<lparr>player_x := player_x player_A + MOVEMENT_SPEED\<rparr>) (players state_AB)\<rparr> = state_moved"
    by (simp add: state_AB_def state_moved_def player_A_def MOVEMENT_SPEED_def)
  have e: "SetPlayer ''player-1'' (player_A\<lparr>player_x := player_x player_A + MOVEMENT_SPEED\<rparr>)
             # broadcast state_AB (PlayerMoved ''player-1'' (player_x player_A + MOVEMENT_SPEED) (player_y player_A))
           = effects_moved"
    by (simp add: effects_moved_def broadcast_def state_AB_def ws_A_def ws_B_def player_A_def
        MOVEMENT_SPEED_def)
  from c1 have r: "on_message state_AB ''player-1'' (Some (movement_msg ''d'')) = Inr (state_moved, effects_moved)"
    unfolding s e .
  have b: "ws_B \<in> set (wss_clients state_AB)" "readyState ws_B = OPEN"
    by (simp_all add: state_AB_def ws_B_def)
  have "Send (handle ws_B) (PlayerMoved ''player-1'' (player_x player_A + MOVEMENT_SPEED) (player_y player_A))
            \<in> set (broadcast state_AB (PlayerMoved ''player-1'' (player_x player_A + MOVEMENT_SPEED) (player_y player_A)))"
    using b by (rule c4)
  then have "Send (handle ws_B) (PlayerMoved ''player-1'' (player_x player_A + MOVEMENT_SPEED) (player_y player_A))
            \<in> set effects_moved"
    unfolding e [symmetric] by simp
  then have m: "Send (handle ws_B) (PlayerMoved ''player-1'' 245 240) \<in> set effects_moved"
    by (simp add: player_A_def MOVEMENT_SPEED_def)
  have v: "Some (JString ''right'') \<notin> {Some (JString ''w''), Some (JString ''a''), Some (JString ''s''), Some (JString ''d'')}"
    by simp
  then have d: "direction_switch (Some (JString ''right'')) (240, 240) = (240, 240)"
    by (rule c5)
  from cw have rw: "on_message state_AB ''player-1'' (Some (movement_msg ''w''))
       = Inr (state_AB\<lparr>players := [(''player-1'', player_A\<lparr>player_y := 235\<rparr>), (''player-2'', player_B)]\<rparr>,
              [SetPlayer ''player-1'' (player_A\<lparr>player_y := 235\<rparr>),
               Send 0 (PlayerMoved ''player-1'' 240 235), Send 1 (PlayerMoved ''player-1'' 240 235)])"
    by (simp add: on_message_w)
  from ca have ra: "on_message state_AB ''player-1'' (Some (movement_msg ''a''))
       = Inr (state_AB\<lparr>players := [(''player-1'', player_A\<lparr>player_x := 235\<rparr>), (''player-2'', player_B)]\<rparr>,
              [SetPlayer ''player-1'' (player_A\<lparr>player_x := 235\<rparr>),
               Send 0 (PlayerMoved ''player-1'' 235 240), Send 1 (PlayerMoved ''player-1'' 235 240)])"
    by (simp add: on_message_a)
  from cs have rs: "on_message state_AB ''player-1'' (Some (movement_msg ''s''))
       = Inr (state_AB\<lparr>players := [(''player-1'', player_A\<lparr>player_y := 245\<rparr>), (''player-2'', player_B)]\<rparr>,
              [SetPlayer ''player-1'' (player_A\<lparr>player_y := 245\<rparr>),
               Send 0 (PlayerMoved ''player-1'' 240 245), Send 1 (PlayerMoved ''player-1'' 240 245)])"
    by (simp add: on_message_s)
  have bw: "Send (handle ws_B) (PlayerMoved ''player-1'' 240 235)
       \<in> set (broadcast state_AB (PlayerMoved ''player-1'' 240 235))"
    using b by (rule cb)
  from h1 h2 h3 h4 h5 r b m v d w rw a ra s' rs bw show ?thesis
    by (intro conjI)
qed

text \<open>
  The claim as written fails: a movement message with direction \<^verbatim>\<open>right\<close> from the
  centre matches no case of the inner switch; the registry is left as it was and nothing
  is sent.
\<close>

theorem movement_right_counterexample:
  "run initial_state connect_AB = Inr (state_AB, effects_AB)
   \<and> map_of (players state_AB) ''player-1'' = Some player_A
   \<and> player_x player_A = initialX \<and> player_y player_A = initialY
   \<and> on_message state_AB ''player-1'' (Some (movement_msg ''right'')) = Inr (state_AB, [])"
  using run_connect_AB
  by (simp add: state_AB_def player_A_def initialX_def initialY_def WORLD_SIZE_def PLAYER_SIZE_def
      on_message_def movement_msg_def movement_case_def direction_switch_def)

text \<open>
  C8. When the position that the inner switch resolves equals the current one on both
  axes, a movement message changes nothing in the state and sends nothing.
\<close>

theorem unchanged_position_no_broadcast:
  assumes "map_of (players s) ws_id = Some p"
    and "get_prop parsedMessage ''type'' = Inr (Some (JString ''movement''))"
    and "get_prop parsedMessage ''direction'' = Inr direction"
    and "direction_switch direction (player_x p, player_y p) = (player_x p, player_y p)"
  shows "on_message s ws_id (Some parsedMessage) = Inr (s, [])"
proof -
  from assms(1,3,4) have "movement_case s ws_id parsedMessage = Inr (s, [])"
    by (simp add: movement_case_def)
  with assms(2) show ?thesis
    by (simp add: on_message_def)
qed

text \<open>The scenario of the specification: A at x = 0 sends a move to the left.\<close>

theorem unchanged_position_no_broadcast_witness:
  "map_of (players state_edge) ''player-1'' = Some (player_A\<lparr>player_x := 0\<rparr>)
   \<and> get_prop (movement_msg ''a'') ''type'' = Inr (Some (JString ''movement''))
   \<and> get_prop (movement_msg ''a'') ''direction'' = Inr (Some (JString ''a''))
   \<and> direction_switch (Some (JString ''a'')) (0, 240) = (0, 240)
   \<and> on_message state_edge ''player-1'' (Some (movement_msg ''a'')) = Inr (state_edge, [])"
proof -
  have h1: "map_of (players state_edge) ''player-1'' = Some (player_A\<lparr>player_x := 0\<rparr>)"
    by (simp add: state_edge_def)
  have h2: "get_prop (movement_msg ''a'') ''type'' = Inr (Some (JString ''movement''))"
    and h3: "get_prop (movement_msg ''a'') ''direction'' = Inr (Some (JString ''a''))"
    by (simp_all add: movement_msg_def)
  have d: "direction_switch (Some (JString ''a'')) (0, 240) = (0, 240)"
    by (simp add: direction_switch_def MOVEMENT_SPEED_def)
  then have h4: "direction_switch (Some (JString ''a''))
      (player_x (player_A\<lparr>player_x := 0\<rparr>), player_y (player_A\<lparr>player_x := 0\<rparr>))
      = (player_x (player_A\<lparr>player_x := 0\<rparr>), player_y (player_A\<lparr>player_x := 0\<rparr>))"
    by (simp add: player_A_def)
  from h1 h2 h3 d unchanged_position_no_broadcast [OF h1 h2 h3 h4] show ?thesis
    by (intro conjI)
qed


subsection \<open>Chat, absent players, dropped payloads\<close>

text \<open>
  C2. The claim is that a chat message from a connection whose player is in the registry
  is broadcast, with the sender's name and the text, on every open connection, and that
  processing it never faults. In the code, \<^verbatim>\<open>case 'chat'\<close> reads \<^verbatim>\<open>player.name\<close>; the
  binding \<^verbatim>\<open>player\<close> is declared in \<^verbatim>\<open>case 'movement'\<close> and is uninitialised here. With A
  and B connected, a chat message from A raises a ReferenceError and nothing is sent.
\<close>

theorem chat_message_faults:
  "run initial_state connect_AB = Inr (state_AB, effects_AB)
   \<and> map_of (players state_AB) ''player-1'' = Some player_A
   \<and> on_message state_AB ''player-1'' (Some (chat_msg ''hi'')) = Inl ReferenceError"
  using run_connect_AB
  by (simp add: state_AB_def on_message_def chat_msg_def chat_case_def read_binding_def)

text \<open>
  C3. The claim is that a movement or chat message from a connection with no registry
  entry is a no-op without error. The movement case has the guard (lemma
  \<open>movement_absent\<close>); the chat case has none and faults as it does for every chat
  message. After A has disconnected, a late chat message from A raises a ReferenceError.
\<close>

theorem chat_without_entry_faults:
  "run initial_state (connect_AB @ [Transport [ws_B], Close 1])
     = Inr (state_B, effects_AB @ [DeletePlayer ''player-1'', Send 1 (PlayerLeft ''player-1'')])
   \<and> map_of (players state_B) ''player-1'' = None
   \<and> on_message state_B ''player-1'' (Some (chat_msg ''hi'')) = Inl ReferenceError"
  using run_disconnect_A
  by (simp add: state_B_def on_message_def chat_msg_def chat_case_def read_binding_def)

text \<open>
  C7. The claim is that a payload that fails to parse, or parses to a type other than
  movement and chat, is dropped without a crash. A payload that fails to parse is dropped
  (lemma \<open>parse_failure_dropped\<close>), and so is one whose type converts to a string (lemma
  \<open>unknown_type_dropped\<close>). But the payload \<^verbatim>\<open>null\<close> parses, and reading its \<^verbatim>\<open>type\<close>
  raises a TypeError outside the \<^verbatim>\<open>try\<close>; and the payload
  \<^verbatim>\<open>{"type":{"toString":1}}\<close> reaches the default case, where building the warning
  raises a TypeError.
\<close>

theorem null_payload_faults:
  "run initial_state connect_AB = Inr (state_AB, effects_AB)
   \<and> on_message state_AB ''player-1'' (Some JNull) = Inl TypeError
   \<and> on_message state_AB ''player-1''
       (Some (JObject [(''type'', JObject [(''toString'', JNumber 1)])])) = Inl TypeError"
  using run_connect_AB by (simp add: on_message_def)


subsection \<open>Invariants of the registry\<close>

text \<open>
  C4. In every state that a run of the server reaches from its initial state, every player
  in the registry has 0 \<le> x \<le> WORLD_SIZE - PLAYER_SIZE and 0 \<le> y \<le> WORLD_SIZE -
  PLAYER_SIZE.
\<close>

theorem positions_within_world:
  assumes "run initial_state es = Inr (s, effects)" and "map_of (players s) k = Some p"
  shows "0 \<le> player_x p \<and> player_x p \<le> WORLD_SIZE - PLAYER_SIZE
       \<and> 0 \<le> player_y p \<and> player_y p \<le> WORLD_SIZE - PLAYER_SIZE"
proof (rule run_preserves [where P = "\<lambda>p. 0 \<le> player_x p \<and> player_x p \<le> WORLD_SIZE - PLAYER_SIZE
       \<and> 0 \<le> player_y p \<and> player_y p \<le> WORLD_SIZE - PLAYER_SIZE", OF _ _ assms(1) _ assms(2)])
  fix pid c
  show "0 \<le> player_x (new_player pid c) \<and> player_x (new_player pid c) \<le> WORLD_SIZE - PLAYER_SIZE
      \<and> 0 \<le> player_y (new_player pid c) \<and> player_y (new_player pid c) \<le> WORLD_SIZE - PLAYER_SIZE"
    by (simp add: new_player_def initialX_def initialY_def WORLD_SIZE_def PLAYER_SIZE_def)
next
  fix q :: player and d nx ny
  assume "0 \<le> player_x q \<and> player_x q \<le> WORLD_SIZE - PLAYER_SIZE
       \<and> 0 \<le> player_y q \<and> player_y q \<le> WORLD_SIZE - PLAYER_SIZE"
    and "direction_switch d (player_x q, player_y q) = (nx, ny)"
  then show "0 \<le> player_x (q\<lparr>player_x := nx, player_y := ny\<rparr>)
       \<and> player_x (q\<lparr>player_x := nx, player_y := ny\<rparr>) \<le> WORLD_SIZE - PLAYER_SIZE
       \<and> 0 \<le> player_y (q\<lparr>player_x := nx, player_y := ny\<rparr>)
       \<and> player_y (q\<lparr>player_x := nx, player_y := ny\<rparr>) \<le> WORLD_SIZE - PLAYER_SIZE"
    using direction_switch_bounds [of "player_x q" "player_y q" d nx ny] by simp
next
  fix k' p'
  assume "map_of (players initial_state) k' = Some p'"
  then show "0 \<le> player_x p' \<and> player_x p' \<le> WORLD_SIZE - PLAYER_SIZE
       \<and> 0 \<le> player_y p' \<and> player_y p' \<le> WORLD_SIZE - PLAYER_SIZE"
    by (simp add: initial_state_def)
qed

text \<open>After A and B have connected and A has moved right, A stands at (245, 240).\<close>

theorem positions_within_world_witness:
  "run initial_state (connect_AB @ [Message 1 (Some (movement_msg ''d''))])
     = Inr (state_moved, effects_AB @ effects_moved)
   \<and> map_of (players state_moved) ''player-1'' = Some (player_A\<lparr>player_x := 245\<rparr>)
   \<and> (0::int) \<le> 245 \<and> 245 \<le> WORLD_SIZE - PLAYER_SIZE
   \<and> (0::int) \<le> 240 \<and> 240 \<le> WORLD_SIZE - PLAYER_SIZE"
proof -
  have l: "map_of (players state_moved) ''player-1'' = Some (player_A\<lparr>player_x := 245\<rparr>)"
    by (simp add: state_moved_def)
  from positions_within_world [OF run_moved l]
  have "(0::int) \<le> 245 \<and> 245 \<le> WORLD_SIZE - PLAYER_SIZE
      \<and> (0::int) \<le> 240 \<and> 240 \<le> WORLD_SIZE - PLAYER_SIZE"
    by (simp add: player_A_def)
  with run_moved l show ?thesis
    by (intro conjI) simp_all
qed

text \<open>
  C10. The constants are WORLD_SIZE = 500, PLAYER_SIZE = 20 and MOVEMENT_SPEED = 5, the
  initial coordinate is 240, and in every state that a run reaches from the initial state
  the x and y of every player in the registry are multiples of MOVEMENT_SPEED.
\<close>

theorem positions_on_grid:
  assumes "run initial_state es = Inr (s, effects)" and "map_of (players s) k = Some p"
  shows "WORLD_SIZE = 500 \<and> PLAYER_SIZE = 20 \<and> MOVEMENT_SPEED = 5
       \<and> initialX = 240 \<and> initialY = 240
       \<and> MOVEMENT_SPEED dvd player_x p \<and> MOVEMENT_SPEED dvd player_y p
       \<and> (\<forall>d px py.
             fst (direction_switch d (px, py)) \<in> {px, px - 5, px + 5, 0, 480}
           \<and> snd (direction_switch d (px, py)) \<in> {py, py - 5, py + 5, 0, 480})"
proof -
  have g: "MOVEMENT_SPEED dvd player_x p \<and> MOVEMENT_SPEED dvd player_y p"
  proof (rule run_preserves [where P = "\<lambda>p. MOVEMENT_SPEED dvd player_x p \<and> MOVEMENT_SPEED dvd player_y p",
        OF _ _ assms(1) _ assms(2)])
    fix pid c
    show "MOVEMENT_SPEED dvd player_x (new_player pid c) \<and> MOVEMENT_SPEED dvd player_y (new_player pid c)"
      by (simp add: new_player_def initialX_def initialY_def WORLD_SIZE_def PLAYER_SIZE_def
          MOVEMENT_SPEED_def)
  next
    fix q :: player and d nx ny
    assume "MOVEMENT_SPEED dvd player_x q \<and> MOVEMENT_SPEED dvd player_y q"
      and "direction_switch d (player_x q, player_y q) = (nx, ny)"
    then show "MOVEMENT_SPEED dvd player_x (q\<lparr>player_x := nx, player_y := ny\<rparr>)
         \<and> MOVEMENT_SPEED dvd player_y (q\<lparr>player_x := nx, player_y := ny\<rparr>)"
      using direction_switch_grid [of "player_x q" "player_y q" d nx ny] by simp
  next
    fix k' p'
    assume "map_of (players initial_state) k' = Some p'"
    then show "MOVEMENT_SPEED dvd player_x p' \<and> MOVEMENT_SPEED dvd player_y p'"
      by (simp add: initial_state_def)
  qed
  have k: "WORLD_SIZE = 500" "PLAYER_SIZE = 20" "MOVEMENT_SPEED = 5"
    "initialX = 240" "initialY = 240"
    by (simp_all add: WORLD_SIZE_def PLAYER_SIZE_def MOVEMENT_SPEED_def initialX_def initialY_def)
  have st: "\<forall>d px py.
             fst (direction_switch d (px, py)) \<in> {px, px - 5, px + 5, 0, 480}
           \<and> snd (direction_switch d (px, py)) \<in> {py, py - 5, py + 5, 0, 480}"
    by (intro allI) (rule direction_switch_steps)
  from k g [THEN conjunct1] g [THEN conjunct2] st show ?thesis
    by (intro conjI)
qed

text \<open>After A and B have connected and A has moved right: 245 and 240 are multiples of 5.\<close>

theorem positions_on_grid_witness:
  "run initial_state (connect_AB @ [Message 1 (Some (movement_msg ''d''))])
     = Inr (state_moved, effects_AB @ effects_moved)
   \<and> map_of (players state_moved) ''player-1'' = Some (player_A\<lparr>player_x := 245\<rparr>)
   \<and> MOVEMENT_SPEED dvd (245::int) \<and> MOVEMENT_SPEED dvd (240::int)"
proof -
  have l: "map_of (players state_moved) ''player-1'' = Some (player_A\<lparr>player_x := 245\<rparr>)"
    by (simp add: state_moved_def)
  note c = positions_on_grid [OF run_moved l]
  note g = c [THEN conjunct2, THEN conjunct2, THEN conjunct2, THEN conjunct2, THEN conjunct2]
  from g [THEN conjunct1] g [THEN conjunct2, THEN conjunct1]
  have "MOVEMENT_SPEED dvd (245::int) \<and> MOVEMENT_SPEED dvd (240::int)"
    by (simp add: player_A_def)
  with run_moved l show ?thesis
    by (intro conjI) simp_all
qed


subsection \<open>Player ids\<close>

text \<open>
  C9, as the code has it. The counter starts at 1. In a run of fewer than 2^53 connects it
  is, after the run, 1 plus the number of connects, and the ids assigned are
  \<^verbatim>\<open>player-1\<close>, \<^verbatim>\<open>player-2\<close>, ... in this order, one for each connect: their numbers are
  strictly increasing and no id occurs twice.
\<close>

theorem ids_unique_increasing:
  assumes "run initial_state es = Inr (s, effects)"
    and "length (filter is_Connection es) < 2 ^ 53"
  shows "nextPlayerId initial_state = 1
       \<and> nextPlayerId s = 1 + length (filter is_Connection es)
       \<and> assigned_ids effects = map playerId_of [1..<nextPlayerId s]
       \<and> sorted_wrt (<) [1..<nextPlayerId s]
       \<and> distinct (assigned_ids effects)"
proof -
  have i: "nextPlayerId initial_state = 1"
    by (simp add: initial_state_def)
  with assms(2) have "nextPlayerId initial_state + length (filter is_Connection es) \<le> 2 ^ 53"
    by simp
  from run_counter [OF assms(1) this] i
  have n: "nextPlayerId s = 1 + length (filter is_Connection es)"
    and a: "assigned_ids effects = map playerId_of [1..<nextPlayerId s]"
    by simp_all
  have "inj_on playerId_of (set [1..<nextPlayerId s])"
    by (rule inj_onI) (rule playerId_of_inject)
  then have "distinct (map playerId_of [1..<nextPlayerId s])"
    by (simp add: distinct_map)
  with a have d: "distinct (assigned_ids effects)"
    by simp
  have "sorted_wrt (<) [1..<nextPlayerId s]"
    by (rule sorted_wrt_upt)
  with i n a d show ?thesis
    by (intro conjI)
qed

text \<open>Connecting A and then B assigns \<^verbatim>\<open>player-1\<close> and \<^verbatim>\<open>player-2\<close>.\<close>

theorem ids_unique_increasing_witness:
  "run initial_state connect_AB = Inr (state_AB, effects_AB)
   \<and> length (filter is_Connection connect_AB) < 2 ^ 53
   \<and> nextPlayerId state_AB = 1 + length (filter is_Connection connect_AB)
   \<and> assigned_ids effects_AB = [''player-1'', ''player-2'']
   \<and> distinct (assigned_ids effects_AB)"
proof -
  have b: "length (filter is_Connection connect_AB) < 2 ^ 53"
    by (simp add: connect_AB_def)
  note c = ids_unique_increasing [OF run_connect_AB b]
  note c2 = c [THEN conjunct2, THEN conjunct1]
  note c3 = c [THEN conjunct2, THEN conjunct2, THEN conjunct1]
  note c5 = c [THEN conjunct2, THEN conjunct2, THEN conjunct2, THEN conjunct2]
  have n: "nextPlayerId state_AB = 3"
    by (simp add: state_AB_def)
  have "map playerId_of [1..<3] = [''player-1'', ''player-2'']"
    by code_simp
  with c3 n have a: "assigned_ids effects_AB = [''player-1'', ''player-2'']"
    by simp
  from run_connect_AB b c2 a c5 show ?thesis
    by (intro conjI)
qed

text \<open>
  The claim as written, for all sequences of connects, fails: the counter is a double and
  stops at 2^53. In the run of 2^53 + 1 connects, the connect number 2^53 and the connect
  after it are both assigned \<^verbatim>\<open>player-9007199254740992\<close>.
\<close>

theorem id_reuse_counterexample:
  "length (filter is_Connection (connects 9007199254740993)) = 9007199254740993
   \<and> ids_of_run (connects 9007199254740993) ! 9007199254740991 = ''player-9007199254740992''
   \<and> ids_of_run (connects 9007199254740993) ! 9007199254740992 = ''player-9007199254740992''
   \<and> \<not> distinct (ids_of_run (connects 9007199254740993))"
proof -
  have p: "(9007199254740992::nat) - 1 = 9007199254740991"
    by simp
  have "(2::nat) ^ 53 < 9007199254740993"
    by simp
  note c = ids_reused [OF this, unfolded two_53 p playerId_of_last]
  from length_connects [of 9007199254740993] c [THEN conjunct1]
    c [THEN conjunct2, THEN conjunct1] c [THEN conjunct2, THEN conjunct2]
  show ?thesis
    by (intro conjI)
qed

subsection \<open>Connect and disconnect\<close>

text \<open>
  C5. On a connect the handler first inserts the new player, whose position is the centre
  x = y = WORLD_SIZE/2 - PLAYER_SIZE/2, into the registry. The new connection is then sent
  exactly two messages, in this order: \<^verbatim>\<open>init\<close> with its id, its player state and the
  world dimensions, and \<^verbatim>\<open>currentPlayers\<close> with the registry as of the insertion, which
  holds the new player. Every other connection is sent \<^verbatim>\<open>playerJoined\<close> with the new
  player's state once for each open member of \<^verbatim>\<open>wss.clients\<close> that it is, and nothing
  else: a connection that is not open, or not a client, is sent nothing.
\<close>

theorem connection_protocol:
  assumes "on_connection s ws rnd = (s', playerId, effects)"
  shows "let p = new_player playerId (getRandomColor rnd) in
       playerId = playerId_of (nextPlayerId s)
     \<and> player_id p = playerId
     \<and> player_x p = WORLD_SIZE div 2 - PLAYER_SIZE div 2 \<and> 2 * player_x p = WORLD_SIZE - PLAYER_SIZE
     \<and> player_y p = WORLD_SIZE div 2 - PLAYER_SIZE div 2 \<and> 2 * player_y p = WORLD_SIZE - PLAYER_SIZE
     \<and> players s' = AList.update playerId p (players s)
     \<and> map_of (players s') playerId = Some p
     \<and> effects = [SetPlayer playerId p,
                   Send ws (Init playerId p WORLD_SIZE PLAYER_SIZE),
                   Send ws (CurrentPlayers (players s'))]
                  @ map (\<lambda>client. Send (handle client) (PlayerJoined p))
                      (filter (\<lambda>client. handle client \<noteq> ws \<and> readyState client = OPEN) (wss_clients s))
     \<and> sent_to ws effects = [Init playerId p WORLD_SIZE PLAYER_SIZE, CurrentPlayers (players s')]
     \<and> (\<forall>h. h \<noteq> ws \<longrightarrow>
          sent_to h effects
            = replicate (length (filter (\<lambda>client. handle client = h \<and> readyState client = OPEN)
                                   (wss_clients s)))
                (PlayerJoined p))"
proof -
  note e = connection_effects [OF assms]
  have "player_id (new_player playerId (getRandomColor rnd)) = playerId"
    and "player_x (new_player playerId (getRandomColor rnd)) = WORLD_SIZE div 2 - PLAYER_SIZE div 2"
    and "2 * player_x (new_player playerId (getRandomColor rnd)) = WORLD_SIZE - PLAYER_SIZE"
    and "player_y (new_player playerId (getRandomColor rnd)) = WORLD_SIZE div 2 - PLAYER_SIZE div 2"
    and "2 * player_y (new_player playerId (getRandomColor rnd)) = WORLD_SIZE - PLAYER_SIZE"
    by (simp_all add: new_player_def initialX_def initialY_def WORLD_SIZE_def PLAYER_SIZE_def)
  moreover note e [THEN conjunct1] e [THEN conjunct2, THEN conjunct1]
    e [THEN conjunct2, THEN conjunct2, THEN conjunct1]
    e [THEN conjunct2, THEN conjunct2, THEN conjunct2]
    connection_sent_to_new [OF assms]
  moreover have "\<forall>h. h \<noteq> ws \<longrightarrow>
          sent_to h effects
            = replicate (length (filter (\<lambda>client. handle client = h \<and> readyState client = OPEN)
                                   (wss_clients s)))
                (PlayerJoined (new_player playerId (getRandomColor rnd)))"
    by (intro allI impI) (rule connection_sent_to_other [OF assms])
  ultimately show ?thesis
    unfolding Let_def by (intro conjI)
qed

text \<open>
  The scenario of the specification: with A connected, B connects on connection 1. B is
  sent \<^verbatim>\<open>init\<close> and then \<^verbatim>\<open>currentPlayers\<close> with A and B; A is sent \<^verbatim>\<open>playerJoined\<close>
  for B; connection 7, which does not exist, is sent nothing.
\<close>

theorem connection_protocol_witness:
  "on_connection state_A 1 (\<lambda>i. 11)
     = (state_AB, ''player-2'',
        [SetPlayer ''player-2'' player_B,
         Send 1 (Init ''player-2'' player_B 500 20),
         Send 1 (CurrentPlayers [(''player-1'', player_A), (''player-2'', player_B)]),
         Send 0 (PlayerJoined player_B)])
   \<and> new_player ''player-2'' (getRandomColor (\<lambda>i. 11)) = player_B
   \<and> player_x player_B = 240 \<and> player_y player_B = 240
   \<and> map_of (players state_AB) ''player-2'' = Some player_B
   \<and> sent_to 1 [SetPlayer ''player-2'' player_B,
         Send 1 (Init ''player-2'' player_B 500 20),
         Send 1 (CurrentPlayers [(''player-1'', player_A), (''player-2'', player_B)]),
         Send 0 (PlayerJoined player_B)]
       = [Init ''player-2'' player_B WORLD_SIZE PLAYER_SIZE, CurrentPlayers (players state_AB)]
   \<and> (0::nat) \<noteq> 1
   \<and> sent_to 0 [SetPlayer ''player-2'' player_B,
         Send 1 (Init ''player-2'' player_B 500 20),
         Send 1 (CurrentPlayers [(''player-1'', player_A), (''player-2'', player_B)]),
         Send 0 (PlayerJoined player_B)]
       = [PlayerJoined player_B]
   \<and> (7::nat) \<noteq> 1
   \<and> sent_to 7 [SetPlayer ''player-2'' player_B,
         Send 1 (Init ''player-2'' player_B 500 20),
         Send 1 (CurrentPlayers [(''player-1'', player_A), (''player-2'', player_B)]),
         Send 0 (PlayerJoined player_B)]
       = []"
proof -
  have np: "new_player ''player-2'' (getRandomColor (\<lambda>i. 11)) = player_B"
    by code_simp
  note c = connection_protocol [OF on_connection_B, unfolded Let_def np]
  note cx = c [THEN conjunct2, THEN conjunct2, THEN conjunct1]
  note cy = c [THEN conjunct2, THEN conjunct2, THEN conjunct2, THEN conjunct2, THEN conjunct1]
  note c6 = c [THEN conjunct2, THEN conjunct2, THEN conjunct2, THEN conjunct2, THEN conjunct2,
      THEN conjunct2]
  note cm = c6 [THEN conjunct2, THEN conjunct1]
  note cs = c6 [THEN conjunct2, THEN conjunct2, THEN conjunct2, THEN conjunct1]
  note co = c6 [THEN conjunct2, THEN conjunct2, THEN conjunct2, THEN conjunct2, rule_format]
  have f0: "length (filter (\<lambda>client. handle client = 0 \<and> readyState client = OPEN) (wss_clients state_A)) = 1"
    and f7: "length (filter (\<lambda>client. handle client = 7 \<and> readyState client = OPEN) (wss_clients state_A)) = 0"
    by (simp_all add: state_A_def ws_A_def ws_B_def)
  from cx have x: "player_x player_B = 240"
    by (simp add: WORLD_SIZE_def PLAYER_SIZE_def)
  from cy have y: "player_y player_B = 240"
    by (simp add: WORLD_SIZE_def PLAYER_SIZE_def)
  note m = cm
  note s1 = cs
  have n0: "(0::nat) \<noteq> 1" and n7: "(7::nat) \<noteq> 1"
    by simp_all
  from co [OF n0] f0 have s0: "sent_to 0 [SetPlayer ''player-2'' player_B,
         Send 1 (Init ''player-2'' player_B 500 20),
         Send 1 (CurrentPlayers [(''player-1'', player_A), (''player-2'', player_B)]),
         Send 0 (PlayerJoined player_B)]
       = [PlayerJoined player_B]"
    by simp
  from co [OF n7] f7 have s7: "sent_to 7 [SetPlayer ''player-2'' player_B,
         Send 1 (Init ''player-2'' player_B 500 20),
         Send 1 (CurrentPlayers [(''player-1'', player_A), (''player-2'', player_B)]),
         Send 0 (PlayerJoined player_B)]
       = []"
    by simp
  from on_connection_B np x y m s1 n0 s0 n7 s7 show ?thesis
    by (intro conjI)
qed

text \<open>
  C6, as the code has it. On a disconnect the handler first deletes the entry of the
  departing connection's id from the registry, leaving every other entry as it was, and
  then sends \<^verbatim>\<open>playerLeft\<close> with that id on exactly the open members of \<^verbatim>\<open>wss.clients\<close>.
  When the id had been assigned in the run so far, and that run had fewer than 2^53
  connects, then whatever happens afterwards the registry has no entry for it, and no
  \<^verbatim>\<open>currentPlayers\<close> snapshot sent afterwards contains it.
\<close>

theorem close_protocol:
  assumes "on_close s ws_id = (s1, effects)"
  shows "players s1 = AList.delete ws_id (players s)
     \<and> map_of (players s1) ws_id = None
     \<and> (\<forall>k. k \<noteq> ws_id \<longrightarrow> map_of (players s1) k = map_of (players s) k)
     \<and> effects = DeletePlayer ws_id # broadcast s1 (PlayerLeft ws_id)
     \<and> (\<forall>h. Send h (PlayerLeft ws_id) \<in> set effects \<longleftrightarrow>
              (\<exists>client\<in>set (wss_clients s). handle client = h \<and> readyState client = OPEN))
     \<and> (\<forall>es0 effects0 es s2 effects2.
          run initial_state es0 = Inr (s, effects0) \<longrightarrow>
          length (filter is_Connection es0) < 2 ^ 53 \<longrightarrow>
          ws_id \<in> set (assigned_ids effects0) \<longrightarrow>
          run s1 es = Inr (s2, effects2) \<longrightarrow>
            map_of (players s2) ws_id = None
          \<and> (\<forall>h snapshot. Send h (CurrentPlayers snapshot) \<in> set effects2
                \<longrightarrow> map_of snapshot ws_id = None))"
proof -
  note c = close_effects [OF assms]
  from assms have cl: "wss_clients s1 = wss_clients s"
    by (auto simp: on_close_def Let_def)
  note 1 = c [THEN conjunct1]
  note 2 = c [THEN conjunct2, THEN conjunct1]
  note nx = c [THEN conjunct2, THEN conjunct2, THEN conjunct1]
  note ef = c [THEN conjunct2, THEN conjunct2, THEN conjunct2]
  from 1 have 3: "\<forall>k. k \<noteq> ws_id \<longrightarrow> map_of (players s1) k = map_of (players s) k"
    by simp
  from ef cl have 4: "effects = DeletePlayer ws_id # broadcast s1 (PlayerLeft ws_id)"
    by (simp add: broadcast_def)
  from ef have 5: "\<forall>h. Send h (PlayerLeft ws_id) \<in> set effects \<longleftrightarrow>
              (\<exists>client\<in>set (wss_clients s). handle client = h \<and> readyState client = OPEN)"
    by (simp add: Send_in_broadcast)
  have 6: "map_of (players s2) ws_id = None
          \<and> (\<forall>h snapshot. Send h (CurrentPlayers snapshot) \<in> set effects2
                \<longrightarrow> map_of snapshot ws_id = None)"
    if r0: "run initial_state es0 = Inr (s, effects0)"
      and b: "length (filter is_Connection es0) < 2 ^ 53"
      and a: "ws_id \<in> set (assigned_ids effects0)"
      and r: "run s1 es = Inr (s2, effects2)"
    for es0 effects0 es s2 effects2
  proof -
    from b have "nextPlayerId initial_state + length (filter is_Connection es0) \<le> 2 ^ 53"
      by (simp add: initial_state_def)
    from run_counter [OF r0 this] a obtain n where n: "ws_id = playerId_of n" "n < nextPlayerId s"
      by auto
    with 2 nx have "map_of (players s1) (playerId_of n) = None" "n < nextPlayerId s1"
      by simp_all
    from run_absent [OF r this] have "map_of (players s2) ws_id = None"
      and "\<forall>snapshot\<in>set (snapshots effects2). map_of snapshot ws_id = None"
      unfolding n(1) by simp_all
    then show ?thesis
      by (auto dest: Send_snapshots)
  qed
  then have 7: "\<forall>es0 effects0 es s2 effects2.
          run initial_state es0 = Inr (s, effects0) \<longrightarrow>
          length (filter is_Connection es0) < 2 ^ 53 \<longrightarrow>
          ws_id \<in> set (assigned_ids effects0) \<longrightarrow>
          run s1 es = Inr (s2, effects2) \<longrightarrow>
            map_of (players s2) ws_id = None
          \<and> (\<forall>h snapshot. Send h (CurrentPlayers snapshot) \<in> set effects2
                \<longrightarrow> map_of snapshot ws_id = None)"
    by (intro allI impI)
  from 1 2 3 4 5 7 show ?thesis
    by (intro conjI)
qed

text \<open>
  The scenario of the specification: A disconnects, B is sent \<^verbatim>\<open>playerLeft\<close> for A, and
  the \<^verbatim>\<open>currentPlayers\<close> snapshot sent to C, who connects afterwards, has B and C only.
\<close>

theorem close_protocol_witness:
  "on_close state_AB_closing ''player-1''
     = (state_B, [DeletePlayer ''player-1'', Send 1 (PlayerLeft ''player-1'')])
   \<and> map_of (players state_B) ''player-1'' = None
   \<and> ''player-2'' \<noteq> ''player-1''
   \<and> map_of (players state_B) ''player-2'' = map_of (players state_AB_closing) ''player-2''
   \<and> ws_B \<in> set (wss_clients state_AB_closing) \<and> handle ws_B = 1 \<and> readyState ws_B = OPEN
   \<and> Send 1 (PlayerLeft ''player-1'') \<in> set [DeletePlayer ''player-1'', Send 1 (PlayerLeft ''player-1'')]
   \<and> run initial_state (connect_AB @ [Transport [ws_B]]) = Inr (state_AB_closing, effects_AB)
   \<and> length (filter is_Connection (connect_AB @ [Transport [ws_B]])) < 2 ^ 53
   \<and> ''player-1'' \<in> set (assigned_ids effects_AB)
   \<and> run state_B [Transport [ws_B, ws_C], Connection 2 (\<lambda>i. 12)] = Inr (state_BC, effects_C)
   \<and> Send 2 (CurrentPlayers [(''player-2'', player_B), (''player-3'', player_C)]) \<in> set effects_C
   \<and> map_of (players state_BC) ''player-1'' = None
   \<and> map_of [(''player-2'', player_B), (''player-3'', player_C)] ''player-1'' = None"
proof -
  note c = close_protocol [OF on_close_A]
  note 1 = c [THEN conjunct2, THEN conjunct1]
  note c3 = c [THEN conjunct2, THEN conjunct2, THEN conjunct1, rule_format]
  note c5 = c [THEN conjunct2, THEN conjunct2, THEN conjunct2, THEN conjunct2, THEN conjunct1,
      THEN spec, THEN iffD2]
  have 2: "''player-2'' \<noteq> ''player-1''"
    by simp
  note 3 = c3 [OF 2]
  have 4: "ws_B \<in> set (wss_clients state_AB_closing)" "handle ws_B = 1" "readyState ws_B = OPEN"
    by (simp_all add: state_AB_closing_def ws_B_def)
  then have "\<exists>client\<in>set (wss_clients state_AB_closing). handle client = 1 \<and> readyState client = OPEN"
    by blast
  then have 5: "Send 1 (PlayerLeft ''player-1'') \<in> set [DeletePlayer ''player-1'', Send 1 (PlayerLeft ''player-1'')]"
    by (rule c5)
  have 6: "''player-1'' \<in> set (assigned_ids effects_AB)"
    by (simp add: effects_AB_def)
  have bd: "length (filter is_Connection (connect_AB @ [Transport [ws_B]])) < 2 ^ 53"
    by (simp add: connect_AB_def)
  have 7: "Send 2 (CurrentPlayers [(''player-2'', player_B), (''player-3'', player_C)]) \<in> set effects_C"
    by (simp add: effects_C_def)
  note c7 = c [THEN conjunct2, THEN conjunct2, THEN conjunct2, THEN conjunct2, THEN conjunct2,
      THEN spec, THEN spec, THEN spec, THEN spec, THEN spec, THEN mp, THEN mp, THEN mp, THEN mp,
      OF run_closing bd 6 run_connect_C]
  note 8 = c7 [THEN conjunct1]
  note 9 = c7 [THEN conjunct2, rule_format, OF 7]
  from on_close_A 1 2 3 4 5 run_closing bd 6 run_connect_C 7 8 9 show ?thesis
    by (intro conjI)
qed

text \<open>
  The claim as written, for every disconnect, fails: after 2^53 connects the counter has
  stopped. The player of the last connect, \<^verbatim>\<open>player-9007199254740992\<close>, is in the
  registry; the disconnect deletes the entry; the next client to connect is given the
  same id, the same name and here the same colour, and the \<^verbatim>\<open>currentPlayers\<close> snapshot it
  is sent holds the entry of the departed player again.
\<close>

theorem reissued_id_counterexample:
  "map_of (registry_after (connects 9007199254740992)) ''player-9007199254740992''
     = Some player_last
   \<and> map_of (registry_after (connects 9007199254740992 @ [Close 9007199254740992]))
       ''player-9007199254740992'' = None
   \<and> map_of (last (snapshots_of_run (connects 9007199254740992
         @ [Close 9007199254740992, Connection 9007199254740992 rnd_A])))
       ''player-9007199254740992'' = Some player_last"
proof -
  have m: "min 9007199254740992 ((2::nat) ^ 53) = 9007199254740992"
    and m': "min (Suc 9007199254740992) ((2::nat) ^ 53) = 2 ^ 53"
    by simp_all
  have "(0::nat) < 9007199254740992"
    by simp
  note 1 = registry_after_connects [OF this, unfolded m playerId_of_last new_player_last]
  from run_connects [of 9007199254740992] obtain s effects
    where r: "run initial_state (connects 9007199254740992) = Inr (s, effects)"
      and n: "nextPlayerId s = min (Suc 9007199254740992) (2 ^ 53)"
    by blast
  from n have n': "nextPlayerId s = 2 ^ 53"
    unfolding m' .
  note c = reissue [OF r n', of 9007199254740992 rnd_A,
      unfolded two_53 playerId_of_last new_player_last]
  from 1 c [THEN conjunct1] c [THEN conjunct2] show ?thesis
    by (intro conjI)
qed

end
